theory Spec2Isabelle
  imports Main "HOL-Library.Word" "HOL-Library.AList" "HOL-Library.Sublist"
begin

unbundle bit_operations_syntax

section \<open>The registry the package talks to\<close>

text \<open>
  \<^verbatim>\<open>winreg.go\<close> forwards every call to the package
  \<^verbatim>\<open>golang.org/x/sys/windows/registry\<close>, which is not part of the repository.
  This section is the model of that package and of the operating-system registry behind
  it; the section after it is the translation of \<^verbatim>\<open>winreg.go\<close> itself.
\<close>

text \<open>
  Modelled from the spec: the registry package and the registry store, which are missing
  from the sources. The spec (section 3) describes a key reference as a handle to a root
  plus a path, and a value as a (name, type, data) triple of one of six types; sections 4.1
  and 7 name the failures (key missing, value missing, access denied). The model is a table
  of keys addressed by their full path, each with its named values and the access rights
  the caller is granted on it, a table of open handles, and a trace of the package calls
  made so far. Names are compared exactly (the registry's case folding is not modelled) and
  data are stored as typed values (their UTF-16 encoding is not modelled).
\<close>

type_synonym Key = nat
type_synonym path = "string list"
type_synonym uint32 = "32 word"
type_synonym uint64 = "64 word"
type_synonym int32 = "32 word"
type_synonym int64 = "64 word"
type_synonym byte = "8 word"

datatype error =
    ERROR_FILE_NOT_FOUND
  | ERROR_ACCESS_DENIED
  | ERROR_INVALID_HANDLE
  | ERROR_KEY_DELETED
  | ErrUnexpectedType
  | EOF

datatype reg_data =
    REG_SZ string
  | REG_EXPAND_SZ string
  | REG_BINARY "byte list"
  | REG_DWORD uint32
  | REG_MULTI_SZ "string list"
  | REG_QWORD uint64

text \<open>The type codes the typed getters return next to the value.\<close>

fun valtype :: "reg_data \<Rightarrow> uint32" where
  "valtype (REG_SZ _) = 1"
| "valtype (REG_EXPAND_SZ _) = 2"
| "valtype (REG_BINARY _) = 3"
| "valtype (REG_DWORD _) = 4"
| "valtype (REG_MULTI_SZ _) = 7"
| "valtype (REG_QWORD _) = 11"

text \<open>The access rights of the registry package, as bit masks.\<close>

definition QUERY_VALUE :: uint32 where "QUERY_VALUE = 0x00001"
definition SET_VALUE :: uint32 where "SET_VALUE = 0x00002"
definition CREATE_SUB_KEY :: uint32 where "CREATE_SUB_KEY = 0x00004"
definition ENUMERATE_SUB_KEYS :: uint32 where "ENUMERATE_SUB_KEYS = 0x00008"
definition DELETE :: uint32 where "DELETE = 0x10000"
definition READ :: uint32 where "READ = 0x20019"
definition WRITE :: uint32 where "WRITE = 0x20006"
definition ALL_ACCESS :: uint32 where "ALL_ACCESS = 0xf003f"

text \<open>The predefined roots are fixed handle values.\<close>

definition CLASSES_ROOT :: Key where "CLASSES_ROOT = 0x80000000"
definition CURRENT_USER :: Key where "CURRENT_USER = 0x80000001"
definition LOCAL_MACHINE :: Key where "LOCAL_MACHINE = 0x80000002"
definition USERS :: Key where "USERS = 0x80000003"
definition CURRENT_CONFIG :: Key where "CURRENT_CONFIG = 0x80000005"

definition predefined_root :: "Key \<Rightarrow> path option" where
  "predefined_root k =
     (if k = CLASSES_ROOT then Some [''HKEY_CLASSES_ROOT'']
      else if k = CURRENT_USER then Some [''HKEY_CURRENT_USER'']
      else if k = LOCAL_MACHINE then Some [''HKEY_LOCAL_MACHINE'']
      else if k = USERS then Some [''HKEY_USERS'']
      else if k = CURRENT_CONFIG then Some [''HKEY_CURRENT_CONFIG'']
      else None)"

record reg_key =
  kvalues :: "(string \<times> reg_data) list"
  kgranted :: uint32

datatype oscall =
    OPEN Key string uint32
  | CREATE Key string uint32
  | CLOSE Key
  | GET Key string
  | SET Key string reg_data
  | DELETE_VALUE Key string
  | DELETE_KEY Key string
  | ENUM_KEYS Key
  | ENUM_VALUES Key

type_synonym event = "oscall \<times> error option"

record registry =
  reg_keys :: "(path \<times> reg_key) list"
  reg_handles :: "(Key \<times> path \<times> uint32) list"
  reg_trace :: "event list"

definition logged :: "oscall \<Rightarrow> error option \<Rightarrow> registry \<Rightarrow> registry" where
  "logged c e s = s\<lparr>reg_trace := reg_trace s @ [(c, e)]\<rparr>"

text \<open>A key path is split at backslashes; empty components are dropped.\<close>

primrec split_on :: "char \<Rightarrow> string \<Rightarrow> string list" where
  "split_on c [] = [[]]"
| "split_on c (x # xs) =
     (if x = c then [] # split_on c xs
      else (case split_on c xs of [] \<Rightarrow> [[x]] | y # ys \<Rightarrow> (x # y) # ys))"

definition path_components :: "string \<Rightarrow> path" where
  "path_components p = filter (\<lambda>c. c \<noteq> []) (split_on (CHR 0x5C) p)"

definition granted_on :: "registry \<Rightarrow> path \<Rightarrow> uint32" where
  "granted_on s p = (case map_of (reg_keys s) p of None \<Rightarrow> 0 | Some key \<Rightarrow> kgranted key)"

text \<open>What a handle stands for: the key's path and the rights the handle carries.\<close>

definition handle_target :: "registry \<Rightarrow> Key \<Rightarrow> (path \<times> uint32) option" where
  "handle_target s h =
     (case predefined_root h of
        Some p \<Rightarrow> Some (p, granted_on s p)
      | None \<Rightarrow> map_of (reg_handles s) h)"

definition fresh_handle :: "registry \<Rightarrow> Key" where
  "fresh_handle s = Suc (fold max (map fst (reg_handles s)) CURRENT_CONFIG)"

definition child_names :: "registry \<Rightarrow> path \<Rightarrow> string list" where
  "child_names s p = map (\<lambda>(q, _). last q) (filter (\<lambda>(q, _). q \<noteq> [] \<and> butlast q = p) (reg_keys s))"

subsection \<open>Opening, creating and closing keys\<close>

text \<open>
  Modelled from the spec: \<^verbatim>\<open>registry.OpenKey\<close>. The key must exist and grant the caller
  every right asked for; the handle returned is new and carries the rights asked for.
\<close>

definition check_open :: "registry \<Rightarrow> Key \<Rightarrow> string \<Rightarrow> uint32 \<Rightarrow> error + path" where
  "check_open s k keyPath access =
     (case handle_target s k of
        None \<Rightarrow> Inl ERROR_INVALID_HANDLE
      | Some (p, _) \<Rightarrow>
          (case map_of (reg_keys s) (p @ path_components keyPath) of
             None \<Rightarrow> Inl ERROR_FILE_NOT_FOUND
           | Some key \<Rightarrow>
               if access AND kgranted key = access then Inr (p @ path_components keyPath)
               else Inl ERROR_ACCESS_DENIED))"

definition registry_OpenKey ::
  "Key \<Rightarrow> string \<Rightarrow> uint32 \<Rightarrow> registry \<Rightarrow> (Key \<times> error option) \<times> registry" where
  "registry_OpenKey k keyPath access s =
     (case check_open s k keyPath access of
        Inl e \<Rightarrow> ((0, Some e), logged (OPEN k keyPath access) (Some e) s)
      | Inr t \<Rightarrow>
          ((fresh_handle s, None),
           logged (OPEN k keyPath access) None
             (s\<lparr>reg_handles := (fresh_handle s, t, access) # reg_handles s\<rparr>)))"

definition new_key :: reg_key where
  "new_key = \<lparr>kvalues = [], kgranted = ALL_ACCESS\<rparr>"

text \<open>
  Modelled from the spec: \<^verbatim>\<open>registry.CreateKey\<close>. Creating a key opens it when it
  exists. Otherwise every missing key on the way is created, which needs the right to
  create subkeys on the deepest key that exists; the caller is granted every right on a
  key it creates.
\<close>

definition check_create :: "registry \<Rightarrow> Key \<Rightarrow> string \<Rightarrow> uint32 \<Rightarrow> error + (path \<times> bool \<times> path list)" where
  "check_create s k keyPath access =
     (case handle_target s k of
        None \<Rightarrow> Inl ERROR_INVALID_HANDLE
      | Some (p, _) \<Rightarrow>
          (case map_of (reg_keys s) (p @ path_components keyPath) of
             Some key \<Rightarrow>
               if access AND kgranted key = access
               then Inr (p @ path_components keyPath, True, [])
               else Inl ERROR_ACCESS_DENIED
           | None \<Rightarrow>
               (case filter (\<lambda>q. map_of (reg_keys s) q \<noteq> None)
                       (rev (map ((@) p) (prefixes (path_components keyPath)))) of
                  [] \<Rightarrow> Inl ERROR_KEY_DELETED
                | anc # _ \<Rightarrow>
                    if granted_on s anc AND CREATE_SUB_KEY = 0 then Inl ERROR_ACCESS_DENIED
                    else Inr (p @ path_components keyPath, False,
                              filter (\<lambda>q. map_of (reg_keys s) q = None)
                                (map ((@) p) (prefixes (path_components keyPath)))))))"

definition registry_CreateKey ::
  "Key \<Rightarrow> string \<Rightarrow> uint32 \<Rightarrow> registry \<Rightarrow> (Key \<times> bool \<times> error option) \<times> registry" where
  "registry_CreateKey k keyPath access s =
     (case check_create s k keyPath access of
        Inl e \<Rightarrow> ((0, False, Some e), logged (CREATE k keyPath access) (Some e) s)
      | Inr (t, existed, missing) \<Rightarrow>
          ((fresh_handle s, existed, None),
           logged (CREATE k keyPath access) None
             (s\<lparr>reg_keys := reg_keys s @ map (\<lambda>q. (q, new_key)) missing,
                reg_handles := (fresh_handle s, t, access) # reg_handles s\<rparr>)))"

definition Key_Close :: "Key \<Rightarrow> registry \<Rightarrow> error option \<times> registry" where
  "Key_Close k s =
     (if map_of (reg_handles s) k = None
      then (if predefined_root k = None then (Some ERROR_INVALID_HANDLE, logged (CLOSE k) (Some ERROR_INVALID_HANDLE) s)
            else (None, logged (CLOSE k) None s))
      else (None, logged (CLOSE k) None (s\<lparr>reg_handles := AList.delete k (reg_handles s)\<rparr>)))"

subsection \<open>Values\<close>

text \<open>
  Modelled from the spec: the typed getters and setters of a key. Every typed getter
  queries the value by name and then checks the stored type, every typed
  setter stores a value of its own type. The getters and setters for DWORD, QWORD,
  expandable strings and 32-bit integers follow the spec (section 3: each accessor
  assumes the fixed type of its name); a 32-bit integer is stored as a DWORD.
\<close>

definition query_value :: "registry \<Rightarrow> Key \<Rightarrow> string \<Rightarrow> error + reg_data" where
  "query_value s k name =
     (case handle_target s k of
        None \<Rightarrow> Inl ERROR_INVALID_HANDLE
      | Some (p, acc) \<Rightarrow>
          if acc AND QUERY_VALUE = 0 then Inl ERROR_ACCESS_DENIED
          else (case map_of (reg_keys s) p of
                  None \<Rightarrow> Inl ERROR_KEY_DELETED
                | Some key \<Rightarrow>
                    (case map_of (kvalues key) name of
                       None \<Rightarrow> Inl ERROR_FILE_NOT_FOUND
                     | Some d \<Rightarrow> Inr d)))"

definition typed_get ::
  "(reg_data \<Rightarrow> 'a option) \<Rightarrow> 'a \<Rightarrow> Key \<Rightarrow> string \<Rightarrow> registry
     \<Rightarrow> ('a \<times> uint32 \<times> error option) \<times> registry" where
  "typed_get sel zero k name s =
     (case query_value s k name of
        Inl e \<Rightarrow> ((zero, 0, Some e), logged (GET k name) (Some e) s)
      | Inr d \<Rightarrow>
          (case sel d of
             None \<Rightarrow> ((zero, valtype d, Some ErrUnexpectedType),
                      logged (GET k name) (Some ErrUnexpectedType) s)
           | Some v \<Rightarrow> ((v, valtype d, None), logged (GET k name) None s)))"

fun as_dword :: "reg_data \<Rightarrow> uint32 option" where
  "as_dword (REG_DWORD v) = Some v"
| "as_dword _ = None"

fun as_qword :: "reg_data \<Rightarrow> uint64 option" where
  "as_qword (REG_QWORD v) = Some v"
| "as_qword _ = None"

fun as_string :: "reg_data \<Rightarrow> string option" where
  "as_string (REG_SZ v) = Some v"
| "as_string (REG_EXPAND_SZ v) = Some v"
| "as_string _ = None"

fun as_expand_string :: "reg_data \<Rightarrow> string option" where
  "as_expand_string (REG_EXPAND_SZ v) = Some v"
| "as_expand_string _ = None"

fun as_strings :: "reg_data \<Rightarrow> string list option" where
  "as_strings (REG_MULTI_SZ v) = Some v"
| "as_strings _ = None"

fun as_binary :: "reg_data \<Rightarrow> byte list option" where
  "as_binary (REG_BINARY v) = Some v"
| "as_binary _ = None"

definition Key_GetDWordValue ::
  "Key \<Rightarrow> string \<Rightarrow> registry \<Rightarrow> (uint32 \<times> uint32 \<times> error option) \<times> registry" where
  "Key_GetDWordValue = typed_get as_dword 0"

definition Key_GetQWordValue ::
  "Key \<Rightarrow> string \<Rightarrow> registry \<Rightarrow> (uint64 \<times> uint32 \<times> error option) \<times> registry" where
  "Key_GetQWordValue = typed_get as_qword 0"

definition Key_GetStringValue ::
  "Key \<Rightarrow> string \<Rightarrow> registry \<Rightarrow> (string \<times> uint32 \<times> error option) \<times> registry" where
  "Key_GetStringValue = typed_get as_string []"

definition Key_GetExpandStringValue ::
  "Key \<Rightarrow> string \<Rightarrow> registry \<Rightarrow> (string \<times> uint32 \<times> error option) \<times> registry" where
  "Key_GetExpandStringValue = typed_get as_expand_string []"

definition Key_GetStringsValue ::
  "Key \<Rightarrow> string \<Rightarrow> registry \<Rightarrow> (string list \<times> uint32 \<times> error option) \<times> registry" where
  "Key_GetStringsValue = typed_get as_strings []"

definition Key_GetBinaryValue ::
  "Key \<Rightarrow> string \<Rightarrow> registry \<Rightarrow> (byte list \<times> uint32 \<times> error option) \<times> registry" where
  "Key_GetBinaryValue = typed_get as_binary []"

definition Key_GetIntValue ::
  "Key \<Rightarrow> string \<Rightarrow> registry \<Rightarrow> (int32 \<times> uint32 \<times> error option) \<times> registry" where
  "Key_GetIntValue = typed_get as_dword 0"

definition check_write :: "registry \<Rightarrow> Key \<Rightarrow> error + (path \<times> reg_key)" where
  "check_write s k =
     (case handle_target s k of
        None \<Rightarrow> Inl ERROR_INVALID_HANDLE
      | Some (p, acc) \<Rightarrow>
          if acc AND SET_VALUE = 0 then Inl ERROR_ACCESS_DENIED
          else (case map_of (reg_keys s) p of
                  None \<Rightarrow> Inl ERROR_KEY_DELETED
                | Some key \<Rightarrow> Inr (p, key)))"

definition set_value :: "Key \<Rightarrow> string \<Rightarrow> reg_data \<Rightarrow> registry \<Rightarrow> error option \<times> registry" where
  "set_value k name d s =
     (case check_write s k of
        Inl e \<Rightarrow> (Some e, logged (SET k name d) (Some e) s)
      | Inr (p, key) \<Rightarrow>
          (None,
           logged (SET k name d) None
             (s\<lparr>reg_keys :=
                  AList.update p (key\<lparr>kvalues := AList.update name d (kvalues key)\<rparr>) (reg_keys s)\<rparr>)))"

definition Key_SetDWordValue :: "Key \<Rightarrow> string \<Rightarrow> uint32 \<Rightarrow> registry \<Rightarrow> error option \<times> registry" where
  "Key_SetDWordValue k name v = set_value k name (REG_DWORD v)"

definition Key_SetQWordValue :: "Key \<Rightarrow> string \<Rightarrow> uint64 \<Rightarrow> registry \<Rightarrow> error option \<times> registry" where
  "Key_SetQWordValue k name v = set_value k name (REG_QWORD v)"

definition Key_SetExpandStringValue :: "Key \<Rightarrow> string \<Rightarrow> string \<Rightarrow> registry \<Rightarrow> error option \<times> registry" where
  "Key_SetExpandStringValue k name v = set_value k name (REG_EXPAND_SZ v)"

definition Key_SetStringsValue :: "Key \<Rightarrow> string \<Rightarrow> string list \<Rightarrow> registry \<Rightarrow> error option \<times> registry" where
  "Key_SetStringsValue k name v = set_value k name (REG_MULTI_SZ v)"

definition Key_SetBinaryValue :: "Key \<Rightarrow> string \<Rightarrow> byte list \<Rightarrow> registry \<Rightarrow> error option \<times> registry" where
  "Key_SetBinaryValue k name v = set_value k name (REG_BINARY v)"

definition Key_SetIntValue :: "Key \<Rightarrow> string \<Rightarrow> int32 \<Rightarrow> registry \<Rightarrow> error option \<times> registry" where
  "Key_SetIntValue k name v = set_value k name (REG_DWORD v)"

definition Key_DeleteValue :: "Key \<Rightarrow> string \<Rightarrow> registry \<Rightarrow> error option \<times> registry" where
  "Key_DeleteValue k name s =
     (case check_write s k of
        Inl e \<Rightarrow> (Some e, logged (DELETE_VALUE k name) (Some e) s)
      | Inr (p, key) \<Rightarrow>
          if map_of (kvalues key) name = None
          then (Some ERROR_FILE_NOT_FOUND, logged (DELETE_VALUE k name) (Some ERROR_FILE_NOT_FOUND) s)
          else (None,
                logged (DELETE_VALUE k name) None
                  (s\<lparr>reg_keys :=
                       AList.update p (key\<lparr>kvalues := AList.delete name (kvalues key)\<rparr>) (reg_keys s)\<rparr>)))"

subsection \<open>Enumeration and deletion of keys\<close>

text \<open>
  Modelled from the spec: the two enumerations of a key. A positive count asks for that
  many names; any other count asks for all of them.
\<close>

definition first_names :: "int \<Rightarrow> string list \<Rightarrow> string list \<times> error option" where
  "first_names n names =
     (if 0 < n \<and> nat n \<le> length names then (take (nat n) names, None)
      else if int (length names) < n then (names, Some EOF)
      else (names, None))"

definition check_enum :: "registry \<Rightarrow> Key \<Rightarrow> uint32 \<Rightarrow> error + (path \<times> reg_key)" where
  "check_enum s k right =
     (case handle_target s k of
        None \<Rightarrow> Inl ERROR_INVALID_HANDLE
      | Some (p, acc) \<Rightarrow>
          if acc AND right = 0 then Inl ERROR_ACCESS_DENIED
          else (case map_of (reg_keys s) p of
                  None \<Rightarrow> Inl ERROR_KEY_DELETED
                | Some key \<Rightarrow> Inr (p, key)))"

definition Key_ReadSubKeyNames :: "Key \<Rightarrow> int \<Rightarrow> registry \<Rightarrow> (string list \<times> error option) \<times> registry" where
  "Key_ReadSubKeyNames k n s =
     (case check_enum s k ENUMERATE_SUB_KEYS of
        Inl e \<Rightarrow> (([], Some e), logged (ENUM_KEYS k) (Some e) s)
      | Inr (p, key) \<Rightarrow>
          (first_names n (child_names s p),
           logged (ENUM_KEYS k) (snd (first_names n (child_names s p))) s))"

definition Key_ReadValueNames :: "Key \<Rightarrow> int \<Rightarrow> registry \<Rightarrow> (string list \<times> error option) \<times> registry" where
  "Key_ReadValueNames k n s =
     (case check_enum s k QUERY_VALUE of
        Inl e \<Rightarrow> (([], Some e), logged (ENUM_VALUES k) (Some e) s)
      | Inr (p, key) \<Rightarrow>
          (first_names n (map fst (kvalues key)),
           logged (ENUM_VALUES k) (snd (first_names n (map fst (kvalues key)))) s))"

text \<open>
  Modelled from the spec: \<^verbatim>\<open>registry.DeleteKey\<close>. A key is deleted by its path below
  an open key. The key must exist, have no subkeys,
  and grant the caller the right to delete it.
\<close>

definition check_delete :: "registry \<Rightarrow> Key \<Rightarrow> string \<Rightarrow> error + path" where
  "check_delete s k keyPath =
     (case handle_target s k of
        None \<Rightarrow> Inl ERROR_INVALID_HANDLE
      | Some (p, _) \<Rightarrow>
          (case map_of (reg_keys s) (p @ path_components keyPath) of
             None \<Rightarrow> Inl ERROR_FILE_NOT_FOUND
           | Some key \<Rightarrow>
               if child_names s (p @ path_components keyPath) \<noteq> [] then Inl ERROR_ACCESS_DENIED
               else if kgranted key AND DELETE = 0 then Inl ERROR_ACCESS_DENIED
               else Inr (p @ path_components keyPath)))"

definition registry_DeleteKey :: "Key \<Rightarrow> string \<Rightarrow> registry \<Rightarrow> error option \<times> registry" where
  "registry_DeleteKey k keyPath s =
     (case check_delete s k keyPath of
        Inl e \<Rightarrow> (Some e, logged (DELETE_KEY k keyPath) (Some e) s)
      | Inr t \<Rightarrow>
          (None,
           logged (DELETE_KEY k keyPath) None (s\<lparr>reg_keys := AList.delete t (reg_keys s)\<rparr>)))"

section \<open>The package: winreg.go\<close>

text \<open>
  Each function takes the registry before the call and returns its Go results together
  with the registry after the call. A Go result \<^verbatim>\<open>(value, error)\<close> is a pair whose
  second component is \<open>None\<close> for \<^verbatim>\<open>nil\<close>. The deferred \<^verbatim>\<open>k.Close()\<close> runs on every
  return after it, and its own error is dropped. The types \<^verbatim>\<open>int32\<close> and \<^verbatim>\<open>int64\<close>
  are words read in two's complement: the conversion \<^verbatim>\<open>int64(v)\<close> is \<open>scast\<close> and
  \<^verbatim>\<open>int32(d)\<close> is \<open>ucast\<close>, which keeps the low 32 bits.
\<close>

definition ReadDWordValue ::
  "Key \<Rightarrow> string \<Rightarrow> string \<Rightarrow> registry \<Rightarrow> (uint32 \<times> error option) \<times> registry" where
  "ReadDWordValue root keyPath valueName s =
     (case registry_OpenKey root keyPath QUERY_VALUE s of
        ((k, Some err), s1) \<Rightarrow> ((0, Some err), s1)
      | ((k, None), s1) \<Rightarrow>
          (case Key_GetDWordValue k valueName s1 of
             ((val, _, Some err), s2) \<Rightarrow> ((0, Some err), snd (Key_Close k s2))
           | ((val, _, None), s2) \<Rightarrow> ((val, None), snd (Key_Close k s2))))"

definition WriteDWordValue ::
  "Key \<Rightarrow> string \<Rightarrow> string \<Rightarrow> uint32 \<Rightarrow> registry \<Rightarrow> error option \<times> registry" where
  "WriteDWordValue root keyPath valueName data s =
     (case registry_OpenKey root keyPath WRITE s of
        ((k, Some err), s1) \<Rightarrow> (Some err, s1)
      | ((k, None), s1) \<Rightarrow>
          (case Key_SetDWordValue k valueName data s1 of
             (Some err, s2) \<Rightarrow> (Some err, snd (Key_Close k s2))
           | (None, s2) \<Rightarrow> (None, snd (Key_Close k s2))))"

definition ReadBinaryValue ::
  "Key \<Rightarrow> string \<Rightarrow> string \<Rightarrow> registry \<Rightarrow> (byte list \<times> error option) \<times> registry" where
  "ReadBinaryValue root keyPath valueName s =
     (case registry_OpenKey root keyPath QUERY_VALUE s of
        ((k, Some err), s1) \<Rightarrow> (([], Some err), s1)
      | ((k, None), s1) \<Rightarrow>
          (case Key_GetBinaryValue k valueName s1 of
             ((val, _, Some err), s2) \<Rightarrow> (([], Some err), snd (Key_Close k s2))
           | ((val, _, None), s2) \<Rightarrow> ((val, None), snd (Key_Close k s2))))"

definition WriteBinaryValue ::
  "Key \<Rightarrow> string \<Rightarrow> string \<Rightarrow> byte list \<Rightarrow> registry \<Rightarrow> error option \<times> registry" where
  "WriteBinaryValue root keyPath valueName data s =
     (case registry_OpenKey root keyPath WRITE s of
        ((k, Some err), s1) \<Rightarrow> (Some err, s1)
      | ((k, None), s1) \<Rightarrow>
          (case Key_SetBinaryValue k valueName data s1 of
             (Some err, s2) \<Rightarrow> (Some err, snd (Key_Close k s2))
           | (None, s2) \<Rightarrow> (None, snd (Key_Close k s2))))"

definition DeleteValue ::
  "Key \<Rightarrow> string \<Rightarrow> string \<Rightarrow> registry \<Rightarrow> error option \<times> registry" where
  "DeleteValue root keyPath valueName s =
     (case registry_OpenKey root keyPath WRITE s of
        ((k, Some err), s1) \<Rightarrow> (Some err, s1)
      | ((k, None), s1) \<Rightarrow>
          (case Key_DeleteValue k valueName s1 of
             (Some err, s2) \<Rightarrow> (Some err, snd (Key_Close k s2))
           | (None, s2) \<Rightarrow> (None, snd (Key_Close k s2))))"

definition DeleteSubKey ::
  "Key \<Rightarrow> string \<Rightarrow> string \<Rightarrow> registry \<Rightarrow> error option \<times> registry" where
  "DeleteSubKey root keyPath subKeyName s =
     (case registry_OpenKey root keyPath WRITE s of
        ((k, Some err), s1) \<Rightarrow> (Some err, s1)
      | ((k, None), s1) \<Rightarrow>
          (case registry_DeleteKey k subKeyName s1 of
             (Some err, s2) \<Rightarrow> (Some err, snd (Key_Close k s2))
           | (None, s2) \<Rightarrow> (None, snd (Key_Close k s2))))"

definition KeyExists :: "Key \<Rightarrow> string \<Rightarrow> registry \<Rightarrow> bool \<times> registry" where
  "KeyExists root keyPath s =
     (case registry_OpenKey root keyPath QUERY_VALUE s of
        ((k, Some err), s1) \<Rightarrow> (False, s1)
      | ((k, None), s1) \<Rightarrow> (True, snd (Key_Close k s1)))"

definition ValueExists :: "Key \<Rightarrow> string \<Rightarrow> string \<Rightarrow> registry \<Rightarrow> bool \<times> registry" where
  "ValueExists root keyPath valueName s =
     (case registry_OpenKey root keyPath QUERY_VALUE s of
        ((k, Some err), s1) \<Rightarrow> (False, s1)
      | ((k, None), s1) \<Rightarrow>
          (case Key_GetStringValue k valueName s1 of
             ((_, _, err), s2) \<Rightarrow> (err = None, snd (Key_Close k s2))))"

definition EnumerateSubKeys ::
  "Key \<Rightarrow> string \<Rightarrow> registry \<Rightarrow> (string list \<times> error option) \<times> registry" where
  "EnumerateSubKeys root keyPath s =
     (case registry_OpenKey root keyPath ENUMERATE_SUB_KEYS s of
        ((k, Some err), s1) \<Rightarrow> (([], Some err), s1)
      | ((k, None), s1) \<Rightarrow>
          (case Key_ReadSubKeyNames k (- 1) s1 of
             ((names, Some err), s2) \<Rightarrow> (([], Some err), snd (Key_Close k s2))
           | ((names, None), s2) \<Rightarrow> ((names, None), snd (Key_Close k s2))))"

definition EnumerateValues ::
  "Key \<Rightarrow> string \<Rightarrow> registry \<Rightarrow> (string list \<times> error option) \<times> registry" where
  "EnumerateValues root keyPath s =
     (case registry_OpenKey root keyPath QUERY_VALUE s of
        ((k, Some err), s1) \<Rightarrow> (([], Some err), s1)
      | ((k, None), s1) \<Rightarrow>
          (case Key_ReadValueNames k (- 1) s1 of
             ((names, Some err), s2) \<Rightarrow> (([], Some err), snd (Key_Close k s2))
           | ((names, None), s2) \<Rightarrow> ((names, None), snd (Key_Close k s2))))"

definition CreateKey :: "Key \<Rightarrow> string \<Rightarrow> registry \<Rightarrow> (Key \<times> error option) \<times> registry" where
  "CreateKey root keyPath s =
     (case registry_CreateKey root keyPath ALL_ACCESS s of
        ((k, _, err), s1) \<Rightarrow> ((k, err), s1))"

definition ReadStringValueWithDefault ::
  "Key \<Rightarrow> string \<Rightarrow> string \<Rightarrow> string \<Rightarrow> registry \<Rightarrow> (string \<times> error option) \<times> registry" where
  "ReadStringValueWithDefault root keyPath valueName defaultValue s =
     (case registry_OpenKey root keyPath QUERY_VALUE s of
        ((k, Some err), s1) \<Rightarrow> ((defaultValue, None), s1)
      | ((k, None), s1) \<Rightarrow>
          (case Key_GetStringValue k valueName s1 of
             ((val, _, Some err), s2) \<Rightarrow> ((defaultValue, None), snd (Key_Close k s2))
           | ((val, _, None), s2) \<Rightarrow> ((val, None), snd (Key_Close k s2))))"

definition ReadMultiStringValue ::
  "Key \<Rightarrow> string \<Rightarrow> string \<Rightarrow> registry \<Rightarrow> (string list \<times> error option) \<times> registry" where
  "ReadMultiStringValue root keyPath valueName s =
     (case registry_OpenKey root keyPath QUERY_VALUE s of
        ((k, Some err), s1) \<Rightarrow> (([], Some err), s1)
      | ((k, None), s1) \<Rightarrow>
          (case Key_GetStringsValue k valueName s1 of
             ((val, _, Some err), s2) \<Rightarrow> (([], Some err), snd (Key_Close k s2))
           | ((val, _, None), s2) \<Rightarrow> ((val, None), snd (Key_Close k s2))))"

definition WriteMultiStringValue ::
  "Key \<Rightarrow> string \<Rightarrow> string \<Rightarrow> string list \<Rightarrow> registry \<Rightarrow> error option \<times> registry" where
  "WriteMultiStringValue root keyPath valueName data s =
     (case registry_OpenKey root keyPath WRITE s of
        ((k, Some err), s1) \<Rightarrow> (Some err, s1)
      | ((k, None), s1) \<Rightarrow>
          (case Key_SetStringsValue k valueName data s1 of
             (Some err, s2) \<Rightarrow> (Some err, snd (Key_Close k s2))
           | (None, s2) \<Rightarrow> (None, snd (Key_Close k s2))))"

definition ReadQWordValue ::
  "Key \<Rightarrow> string \<Rightarrow> string \<Rightarrow> registry \<Rightarrow> (uint64 \<times> error option) \<times> registry" where
  "ReadQWordValue root keyPath valueName s =
     (case registry_OpenKey root keyPath QUERY_VALUE s of
        ((k, Some err), s1) \<Rightarrow> ((0, Some err), s1)
      | ((k, None), s1) \<Rightarrow>
          (case Key_GetQWordValue k valueName s1 of
             ((val, _, Some err), s2) \<Rightarrow> ((0, Some err), snd (Key_Close k s2))
           | ((val, _, None), s2) \<Rightarrow> ((val, None), snd (Key_Close k s2))))"

definition WriteQWordValue ::
  "Key \<Rightarrow> string \<Rightarrow> string \<Rightarrow> uint64 \<Rightarrow> registry \<Rightarrow> error option \<times> registry" where
  "WriteQWordValue root keyPath valueName data s =
     (case registry_OpenKey root keyPath WRITE s of
        ((k, Some err), s1) \<Rightarrow> (Some err, s1)
      | ((k, None), s1) \<Rightarrow>
          (case Key_SetQWordValue k valueName data s1 of
             (Some err, s2) \<Rightarrow> (Some err, snd (Key_Close k s2))
           | (None, s2) \<Rightarrow> (None, snd (Key_Close k s2))))"

definition ReadExpandStringValue ::
  "Key \<Rightarrow> string \<Rightarrow> string \<Rightarrow> registry \<Rightarrow> (string \<times> error option) \<times> registry" where
  "ReadExpandStringValue root keyPath valueName s =
     (case registry_OpenKey root keyPath QUERY_VALUE s of
        ((k, Some err), s1) \<Rightarrow> (([], Some err), s1)
      | ((k, None), s1) \<Rightarrow>
          (case Key_GetExpandStringValue k valueName s1 of
             ((val, _, Some err), s2) \<Rightarrow> (([], Some err), snd (Key_Close k s2))
           | ((val, _, None), s2) \<Rightarrow> ((val, None), snd (Key_Close k s2))))"

definition WriteExpandStringValue ::
  "Key \<Rightarrow> string \<Rightarrow> string \<Rightarrow> string \<Rightarrow> registry \<Rightarrow> error option \<times> registry" where
  "WriteExpandStringValue root keyPath valueName data s =
     (case registry_OpenKey root keyPath WRITE s of
        ((k, Some err), s1) \<Rightarrow> (Some err, s1)
      | ((k, None), s1) \<Rightarrow>
          (case Key_SetExpandStringValue k valueName data s1 of
             (Some err, s2) \<Rightarrow> (Some err, snd (Key_Close k s2))
           | (None, s2) \<Rightarrow> (None, snd (Key_Close k s2))))"

definition ReadInt32Value ::
  "Key \<Rightarrow> string \<Rightarrow> string \<Rightarrow> registry \<Rightarrow> (int32 \<times> error option) \<times> registry" where
  "ReadInt32Value root keyPath valueName s =
     (case registry_OpenKey root keyPath QUERY_VALUE s of
        ((k, Some err), s1) \<Rightarrow> ((0, Some err), s1)
      | ((k, None), s1) \<Rightarrow>
          (case Key_GetIntValue k valueName s1 of
             ((val, _, Some err), s2) \<Rightarrow> ((0, Some err), snd (Key_Close k s2))
           | ((val, _, None), s2) \<Rightarrow> ((val, None), snd (Key_Close k s2))))"

definition WriteInt32Value ::
  "Key \<Rightarrow> string \<Rightarrow> string \<Rightarrow> int32 \<Rightarrow> registry \<Rightarrow> error option \<times> registry" where
  "WriteInt32Value root keyPath valueName data s =
     (case registry_OpenKey root keyPath WRITE s of
        ((k, Some err), s1) \<Rightarrow> (Some err, s1)
      | ((k, None), s1) \<Rightarrow>
          (case Key_SetIntValue k valueName data s1 of
             (Some err, s2) \<Rightarrow> (Some err, snd (Key_Close k s2))
           | (None, s2) \<Rightarrow> (None, snd (Key_Close k s2))))"

definition ReadInt64Value ::
  "Key \<Rightarrow> string \<Rightarrow> string \<Rightarrow> registry \<Rightarrow> (int64 \<times> error option) \<times> registry" where
  "ReadInt64Value root keyPath valueName s =
     (case registry_OpenKey root keyPath QUERY_VALUE s of
        ((k, Some err), s1) \<Rightarrow> ((0, Some err), s1)
      | ((k, None), s1) \<Rightarrow>
          (case Key_GetIntValue k valueName s1 of
             ((val, _, Some err), s2) \<Rightarrow> ((0, Some err), snd (Key_Close k s2))
           | ((val, _, None), s2) \<Rightarrow> ((scast val, None), snd (Key_Close k s2))))"

definition WriteInt64Value ::
  "Key \<Rightarrow> string \<Rightarrow> string \<Rightarrow> int64 \<Rightarrow> registry \<Rightarrow> error option \<times> registry" where
  "WriteInt64Value root keyPath valueName data s =
     (case registry_OpenKey root keyPath WRITE s of
        ((k, Some err), s1) \<Rightarrow> (Some err, s1)
      | ((k, None), s1) \<Rightarrow>
          (case Key_SetIntValue k valueName (ucast data) s1 of
             (Some err, s2) \<Rightarrow> (Some err, snd (Key_Close k s2))
           | (None, s2) \<Rightarrow> (None, snd (Key_Close k s2))))"

definition DeleteKey :: "Key \<Rightarrow> string \<Rightarrow> registry \<Rightarrow> error option \<times> registry" where
  "DeleteKey root keyPath s = registry_DeleteKey root keyPath s"

section \<open>Observations on the registry and on a call\<close>

text \<open>
  The key a root and a key path name, the value stored there under a name, and whether
  the caller is granted the query right on that key.
\<close>

definition stored_key :: "registry \<Rightarrow> Key \<Rightarrow> string \<Rightarrow> reg_key option" where
  "stored_key s root keyPath =
     (case handle_target s root of
        None \<Rightarrow> None
      | Some (p, _) \<Rightarrow> map_of (reg_keys s) (p @ path_components keyPath))"

definition value_at :: "registry \<Rightarrow> Key \<Rightarrow> string \<Rightarrow> string \<Rightarrow> reg_data option" where
  "value_at s root keyPath name =
     (case stored_key s root keyPath of None \<Rightarrow> None | Some key \<Rightarrow> map_of (kvalues key) name)"

definition may_query :: "registry \<Rightarrow> Key \<Rightarrow> string \<Rightarrow> bool" where
  "may_query s root keyPath =
     (case stored_key s root keyPath of
        None \<Rightarrow> False
      | Some key \<Rightarrow> QUERY_VALUE AND kgranted key = QUERY_VALUE)"

text \<open>One constructor for each exported function of the package, with its arguments.\<close>

datatype api_call =
    Call_ReadDWordValue Key string string
  | Call_WriteDWordValue Key string string uint32
  | Call_ReadBinaryValue Key string string
  | Call_WriteBinaryValue Key string string "byte list"
  | Call_DeleteValue Key string string
  | Call_DeleteSubKey Key string string
  | Call_KeyExists Key string
  | Call_ValueExists Key string string
  | Call_EnumerateSubKeys Key string
  | Call_EnumerateValues Key string
  | Call_CreateKey Key string
  | Call_ReadStringValueWithDefault Key string string string
  | Call_ReadMultiStringValue Key string string
  | Call_WriteMultiStringValue Key string string "string list"
  | Call_ReadQWordValue Key string string
  | Call_WriteQWordValue Key string string uint64
  | Call_ReadExpandStringValue Key string string
  | Call_WriteExpandStringValue Key string string string
  | Call_ReadInt32Value Key string string
  | Call_WriteInt32Value Key string string int32
  | Call_ReadInt64Value Key string string
  | Call_WriteInt64Value Key string string int64
  | Call_DeleteKey Key string

fun state_after :: "api_call \<Rightarrow> registry \<Rightarrow> registry" where
  "state_after (Call_ReadDWordValue r p n) s = snd (ReadDWordValue r p n s)"
| "state_after (Call_WriteDWordValue r p n d) s = snd (WriteDWordValue r p n d s)"
| "state_after (Call_ReadBinaryValue r p n) s = snd (ReadBinaryValue r p n s)"
| "state_after (Call_WriteBinaryValue r p n d) s = snd (WriteBinaryValue r p n d s)"
| "state_after (Call_DeleteValue r p n) s = snd (DeleteValue r p n s)"
| "state_after (Call_DeleteSubKey r p n) s = snd (DeleteSubKey r p n s)"
| "state_after (Call_KeyExists r p) s = snd (KeyExists r p s)"
| "state_after (Call_ValueExists r p n) s = snd (ValueExists r p n s)"
| "state_after (Call_EnumerateSubKeys r p) s = snd (EnumerateSubKeys r p s)"
| "state_after (Call_EnumerateValues r p) s = snd (EnumerateValues r p s)"
| "state_after (Call_CreateKey r p) s = snd (CreateKey r p s)"
| "state_after (Call_ReadStringValueWithDefault r p n d) s = snd (ReadStringValueWithDefault r p n d s)"
| "state_after (Call_ReadMultiStringValue r p n) s = snd (ReadMultiStringValue r p n s)"
| "state_after (Call_WriteMultiStringValue r p n d) s = snd (WriteMultiStringValue r p n d s)"
| "state_after (Call_ReadQWordValue r p n) s = snd (ReadQWordValue r p n s)"
| "state_after (Call_WriteQWordValue r p n d) s = snd (WriteQWordValue r p n d s)"
| "state_after (Call_ReadExpandStringValue r p n) s = snd (ReadExpandStringValue r p n s)"
| "state_after (Call_WriteExpandStringValue r p n d) s = snd (WriteExpandStringValue r p n d s)"
| "state_after (Call_ReadInt32Value r p n) s = snd (ReadInt32Value r p n s)"
| "state_after (Call_WriteInt32Value r p n d) s = snd (WriteInt32Value r p n d s)"
| "state_after (Call_ReadInt64Value r p n) s = snd (ReadInt64Value r p n s)"
| "state_after (Call_WriteInt64Value r p n d) s = snd (WriteInt64Value r p n d s)"
| "state_after (Call_DeleteKey r p) s = snd (DeleteKey r p s)"


text \<open>The calls to the registry package that a call of this package adds to the trace.\<close>

definition events_of :: "api_call \<Rightarrow> registry \<Rightarrow> event list" where
  "events_of c s = drop (length (reg_trace s)) (reg_trace (state_after c s))"

text \<open>The access rights asked for by the open and create calls of a trace, in order.\<close>

fun requested_by :: "oscall \<Rightarrow> uint32 list" where
  "requested_by (OPEN k p a) = [a]"
| "requested_by (CREATE k p a) = [a]"
| "requested_by _ = []"

definition requested :: "event list \<Rightarrow> uint32 list" where
  "requested es = concat (map (\<lambda>(c, e). requested_by c) es)"



text \<open>
  The access right the spec assigns to each function that opens a key (section 4.1:
  query, write, enumerate, or all-access for creation). \<^verbatim>\<open>DeleteKey\<close> opens no key.
\<close>

fun spec_access :: "api_call \<Rightarrow> uint32 list" where
  "spec_access (Call_ReadDWordValue r p n) = [QUERY_VALUE]"
| "spec_access (Call_WriteDWordValue r p n d) = [WRITE]"
| "spec_access (Call_ReadBinaryValue r p n) = [QUERY_VALUE]"
| "spec_access (Call_WriteBinaryValue r p n d) = [WRITE]"
| "spec_access (Call_DeleteValue r p n) = [WRITE]"
| "spec_access (Call_DeleteSubKey r p n) = [WRITE]"
| "spec_access (Call_KeyExists r p) = [QUERY_VALUE]"
| "spec_access (Call_ValueExists r p n) = [QUERY_VALUE]"
| "spec_access (Call_EnumerateSubKeys r p) = [ENUMERATE_SUB_KEYS]"
| "spec_access (Call_EnumerateValues r p) = [QUERY_VALUE]"
| "spec_access (Call_CreateKey r p) = [ALL_ACCESS]"
| "spec_access (Call_ReadStringValueWithDefault r p n d) = [QUERY_VALUE]"
| "spec_access (Call_ReadMultiStringValue r p n) = [QUERY_VALUE]"
| "spec_access (Call_WriteMultiStringValue r p n d) = [WRITE]"
| "spec_access (Call_ReadQWordValue r p n) = [QUERY_VALUE]"
| "spec_access (Call_WriteQWordValue r p n d) = [WRITE]"
| "spec_access (Call_ReadExpandStringValue r p n) = [QUERY_VALUE]"
| "spec_access (Call_WriteExpandStringValue r p n d) = [WRITE]"
| "spec_access (Call_ReadInt32Value r p n) = [QUERY_VALUE]"
| "spec_access (Call_WriteInt32Value r p n d) = [WRITE]"
| "spec_access (Call_ReadInt64Value r p n) = [QUERY_VALUE]"
| "spec_access (Call_WriteInt64Value r p n d) = [WRITE]"
| "spec_access (Call_DeleteKey r p) = []"

fun is_create :: "api_call \<Rightarrow> bool" where
  "is_create (Call_CreateKey r p) = True"
| "is_create _ = False"


text \<open>
  A small registry for concrete runs: a user root with a key \<^verbatim>\<open>Software\<close> holding three
  values and a subkey \<^verbatim>\<open>App\<close>, and a key \<^verbatim>\<open>Locked\<close> on which the caller holds no right.
\<close>

definition reg0 :: registry where
  "reg0 =
     \<lparr>reg_keys =
        [([''HKEY_CURRENT_USER''], \<lparr>kvalues = [], kgranted = ALL_ACCESS\<rparr>),
         ([''HKEY_CURRENT_USER'', ''Software''],
            \<lparr>kvalues = [(''Name'', REG_SZ ''winreg''), (''Count'', REG_DWORD 7),
                        (''Home'', REG_EXPAND_SZ ''%USERPROFILE%'')],
             kgranted = ALL_ACCESS\<rparr>),
         ([''HKEY_CURRENT_USER'', ''Software'', ''App''], \<lparr>kvalues = [], kgranted = ALL_ACCESS\<rparr>),
         ([''HKEY_CURRENT_USER'', ''Locked''],
            \<lparr>kvalues = [(''Name'', REG_SZ ''secret'')], kgranted = 0\<rparr>)],
      reg_handles = [],
      reg_trace = []\<rparr>"

definition Software_App :: string where
  "Software_App = ''Software'' @ [CHR 0x5C] @ ''App''"

definition Software_New :: string where
  "Software_New = ''Software'' @ [CHR 0x5C] @ ''New''"

text \<open>
  A second small registry: the key \<^verbatim>\<open>Narrow\<close> grants the caller the set-value right and
  nothing else; it holds one value and one subkey. \<open>reg1_opened\<close> is that registry after
  \<^verbatim>\<open>Narrow\<close> has been opened with the set-value right.
\<close>

definition reg1 :: registry where
  "reg1 =
     \<lparr>reg_keys =
        [([''HKEY_CURRENT_USER''], \<lparr>kvalues = [], kgranted = ALL_ACCESS\<rparr>),
         ([''HKEY_CURRENT_USER'', ''Narrow''],
            \<lparr>kvalues = [(''Count'', REG_DWORD 7)], kgranted = SET_VALUE\<rparr>),
         ([''HKEY_CURRENT_USER'', ''Narrow'', ''Sub''], \<lparr>kvalues = [], kgranted = ALL_ACCESS\<rparr>)],
      reg_handles = [],
      reg_trace = []\<rparr>"

definition reg1_opened :: registry where
  "reg1_opened = snd (registry_OpenKey CURRENT_USER ''Narrow'' SET_VALUE reg1)"


section \<open>Handles and traces\<close>

subsection \<open>Fresh handles\<close>

lemma le_fold_max: "(a::nat) \<le> fold max xs a"
  by (induction xs arbitrary: a) (auto intro: order_trans [OF max.cobounded2])

lemma mem_le_fold_max: "(x::nat) \<in> set xs \<Longrightarrow> x \<le> fold max xs a"
proof (induction xs arbitrary: a)
  case Nil
  then show ?case by simp
next
  case (Cons y ys)
  show ?case
  proof (cases "x = y")
    case True
    have "y \<le> max y a" by simp
    also have "\<dots> \<le> fold max ys (max y a)" by (rule le_fold_max)
    finally show ?thesis using True by simp
  next
    case False
    with Cons show ?thesis by simp
  qed
qed

lemma fresh_handle_notin: "fresh_handle s \<notin> fst ` set (reg_handles s)"
proof
  assume "fresh_handle s \<in> fst ` set (reg_handles s)"
  then have "fresh_handle s \<in> set (map fst (reg_handles s))" by simp
  then have "fresh_handle s \<le> fold max (map fst (reg_handles s)) CURRENT_CONFIG"
    by (rule mem_le_fold_max)
  then show False by (simp add: fresh_handle_def)
qed

lemma fresh_handle_gt: "CURRENT_CONFIG < fresh_handle s"
  unfolding fresh_handle_def
  using le_fold_max [of CURRENT_CONFIG "map fst (reg_handles s)"] by simp

lemma fresh_handle_not_predefined: "predefined_root (fresh_handle s) = None"
  using fresh_handle_gt [of s]
  by (simp add: predefined_root_def CLASSES_ROOT_def CURRENT_USER_def LOCAL_MACHINE_def
      USERS_def CURRENT_CONFIG_def)

lemma map_of_fresh_handle: "map_of (reg_handles s) (fresh_handle s) = None"
  using fresh_handle_notin [of s] by (simp add: map_of_eq_None_iff)

subsection \<open>What each function leaves in the handle table and in the trace\<close>

lemmas os_defs =
  registry_OpenKey_def registry_CreateKey_def Key_Close_def logged_def typed_get_def
  set_value_def Key_DeleteValue_def Key_ReadSubKeyNames_def Key_ReadValueNames_def
  registry_DeleteKey_def
  Key_GetDWordValue_def Key_GetQWordValue_def Key_GetStringValue_def
  Key_GetExpandStringValue_def Key_GetStringsValue_def Key_GetBinaryValue_def Key_GetIntValue_def
  Key_SetDWordValue_def Key_SetQWordValue_def Key_SetExpandStringValue_def
  Key_SetStringsValue_def Key_SetBinaryValue_def Key_SetIntValue_def


lemma WriteDWordValue_handles: "reg_handles (snd (WriteDWordValue r p n d s)) = reg_handles s"
  by (auto simp: WriteDWordValue_def os_defs fresh_handle_notin map_of_fresh_handle
      split: sum.splits option.splits prod.splits)


lemma WriteBinaryValue_handles: "reg_handles (snd (WriteBinaryValue r p n d s)) = reg_handles s"
  by (auto simp: WriteBinaryValue_def os_defs fresh_handle_notin map_of_fresh_handle
      split: sum.splits option.splits prod.splits)

lemma DeleteValue_handles: "reg_handles (snd (DeleteValue r p n s)) = reg_handles s"
  by (auto simp: DeleteValue_def os_defs fresh_handle_notin map_of_fresh_handle
      split: sum.splits option.splits prod.splits)





lemma EnumerateValues_handles: "reg_handles (snd (EnumerateValues r p s)) = reg_handles s"
  by (auto simp: EnumerateValues_def os_defs fresh_handle_notin map_of_fresh_handle
      split: sum.splits option.splits prod.splits)



lemma WriteMultiStringValue_handles: "reg_handles (snd (WriteMultiStringValue r p n d s)) = reg_handles s"
  by (auto simp: WriteMultiStringValue_def os_defs fresh_handle_notin map_of_fresh_handle
      split: sum.splits option.splits prod.splits)


lemma WriteQWordValue_handles: "reg_handles (snd (WriteQWordValue r p n d s)) = reg_handles s"
  by (auto simp: WriteQWordValue_def os_defs fresh_handle_notin map_of_fresh_handle
      split: sum.splits option.splits prod.splits)


lemma WriteExpandStringValue_handles: "reg_handles (snd (WriteExpandStringValue r p n d s)) = reg_handles s"
  by (auto simp: WriteExpandStringValue_def os_defs fresh_handle_notin map_of_fresh_handle
      split: sum.splits option.splits prod.splits)


lemma WriteInt32Value_handles: "reg_handles (snd (WriteInt32Value r p n d s)) = reg_handles s"
  by (auto simp: WriteInt32Value_def os_defs fresh_handle_notin map_of_fresh_handle
      split: sum.splits option.splits prod.splits)


lemma WriteInt64Value_handles: "reg_handles (snd (WriteInt64Value r p n d s)) = reg_handles s"
  by (auto simp: WriteInt64Value_def os_defs fresh_handle_notin map_of_fresh_handle
      split: sum.splits option.splits prod.splits)

lemma DeleteKey_handles: "reg_handles (snd (DeleteKey r p s)) = reg_handles s"
  by (auto simp: DeleteKey_def os_defs fresh_handle_notin map_of_fresh_handle
      split: sum.splits option.splits prod.splits)

lemma CreateKey_result:
  "CreateKey r p s =
     (case check_create s r p ALL_ACCESS of
        Inl e \<Rightarrow> ((0, Some e), logged (CREATE r p ALL_ACCESS) (Some e) s)
      | Inr (t, existed, missing) \<Rightarrow>
          ((fresh_handle s, None),
           logged (CREATE r p ALL_ACCESS) None
             (s\<lparr>reg_keys := reg_keys s @ map (\<lambda>q. (q, new_key)) missing,
                reg_handles := (fresh_handle s, t, ALL_ACCESS) # reg_handles s\<rparr>)))"
  by (simp add: CreateKey_def registry_CreateKey_def split: sum.splits prod.splits)

lemma ReadDWordValue_requested: "requested (events_of (Call_ReadDWordValue r p n) s) = [QUERY_VALUE]"
  by (auto simp: events_of_def requested_def ReadDWordValue_def os_defs
      split: sum.splits option.splits prod.splits)

lemma WriteDWordValue_requested: "requested (events_of (Call_WriteDWordValue r p n d) s) = [WRITE]"
  by (auto simp: events_of_def requested_def WriteDWordValue_def os_defs
      split: sum.splits option.splits prod.splits)

lemma ReadBinaryValue_requested: "requested (events_of (Call_ReadBinaryValue r p n) s) = [QUERY_VALUE]"
  by (auto simp: events_of_def requested_def ReadBinaryValue_def os_defs
      split: sum.splits option.splits prod.splits)

lemma WriteBinaryValue_requested: "requested (events_of (Call_WriteBinaryValue r p n d) s) = [WRITE]"
  by (auto simp: events_of_def requested_def WriteBinaryValue_def os_defs
      split: sum.splits option.splits prod.splits)

lemma DeleteValue_requested: "requested (events_of (Call_DeleteValue r p n) s) = [WRITE]"
  by (auto simp: events_of_def requested_def DeleteValue_def os_defs
      split: sum.splits option.splits prod.splits)

lemma DeleteSubKey_requested: "requested (events_of (Call_DeleteSubKey r p n) s) = [WRITE]"
  by (auto simp: events_of_def requested_def DeleteSubKey_def os_defs
      split: sum.splits option.splits prod.splits)

lemma KeyExists_requested: "requested (events_of (Call_KeyExists r p) s) = [QUERY_VALUE]"
  by (auto simp: events_of_def requested_def KeyExists_def os_defs
      split: sum.splits option.splits prod.splits)

lemma ValueExists_requested: "requested (events_of (Call_ValueExists r p n) s) = [QUERY_VALUE]"
  by (auto simp: events_of_def requested_def ValueExists_def os_defs
      split: sum.splits option.splits prod.splits)

lemma EnumerateSubKeys_requested: "requested (events_of (Call_EnumerateSubKeys r p) s) = [ENUMERATE_SUB_KEYS]"
  by (auto simp: events_of_def requested_def EnumerateSubKeys_def os_defs
      split: sum.splits option.splits prod.splits)

lemma EnumerateValues_requested: "requested (events_of (Call_EnumerateValues r p) s) = [QUERY_VALUE]"
  by (auto simp: events_of_def requested_def EnumerateValues_def os_defs
      split: sum.splits option.splits prod.splits)

lemma CreateKey_requested: "requested (events_of (Call_CreateKey r p) s) = [ALL_ACCESS]"
  by (auto simp: events_of_def requested_def CreateKey_def os_defs
      split: sum.splits option.splits prod.splits)

lemma ReadStringValueWithDefault_requested: "requested (events_of (Call_ReadStringValueWithDefault r p n d) s) = [QUERY_VALUE]"
  by (auto simp: events_of_def requested_def ReadStringValueWithDefault_def os_defs
      split: sum.splits option.splits prod.splits)

lemma ReadMultiStringValue_requested: "requested (events_of (Call_ReadMultiStringValue r p n) s) = [QUERY_VALUE]"
  by (auto simp: events_of_def requested_def ReadMultiStringValue_def os_defs
      split: sum.splits option.splits prod.splits)

lemma WriteMultiStringValue_requested: "requested (events_of (Call_WriteMultiStringValue r p n d) s) = [WRITE]"
  by (auto simp: events_of_def requested_def WriteMultiStringValue_def os_defs
      split: sum.splits option.splits prod.splits)

lemma ReadQWordValue_requested: "requested (events_of (Call_ReadQWordValue r p n) s) = [QUERY_VALUE]"
  by (auto simp: events_of_def requested_def ReadQWordValue_def os_defs
      split: sum.splits option.splits prod.splits)

lemma WriteQWordValue_requested: "requested (events_of (Call_WriteQWordValue r p n d) s) = [WRITE]"
  by (auto simp: events_of_def requested_def WriteQWordValue_def os_defs
      split: sum.splits option.splits prod.splits)

lemma ReadExpandStringValue_requested: "requested (events_of (Call_ReadExpandStringValue r p n) s) = [QUERY_VALUE]"
  by (auto simp: events_of_def requested_def ReadExpandStringValue_def os_defs
      split: sum.splits option.splits prod.splits)

lemma WriteExpandStringValue_requested: "requested (events_of (Call_WriteExpandStringValue r p n d) s) = [WRITE]"
  by (auto simp: events_of_def requested_def WriteExpandStringValue_def os_defs
      split: sum.splits option.splits prod.splits)

lemma ReadInt32Value_requested: "requested (events_of (Call_ReadInt32Value r p n) s) = [QUERY_VALUE]"
  by (auto simp: events_of_def requested_def ReadInt32Value_def os_defs
      split: sum.splits option.splits prod.splits)

lemma WriteInt32Value_requested: "requested (events_of (Call_WriteInt32Value r p n d) s) = [WRITE]"
  by (auto simp: events_of_def requested_def WriteInt32Value_def os_defs
      split: sum.splits option.splits prod.splits)

lemma ReadInt64Value_requested: "requested (events_of (Call_ReadInt64Value r p n) s) = [QUERY_VALUE]"
  by (auto simp: events_of_def requested_def ReadInt64Value_def os_defs
      split: sum.splits option.splits prod.splits)

lemma WriteInt64Value_requested: "requested (events_of (Call_WriteInt64Value r p n d) s) = [WRITE]"
  by (auto simp: events_of_def requested_def WriteInt64Value_def os_defs
      split: sum.splits option.splits prod.splits)

lemma DeleteKey_requested: "requested (events_of (Call_DeleteKey r p) s) = []"
  by (auto simp: events_of_def requested_def DeleteKey_def os_defs
      split: sum.splits option.splits prod.splits)





















section \<open>Results of the typed accessors\<close>

lemma reg_keys_logged [simp]: "reg_keys (logged c e s) = reg_keys s"
  by (simp add: logged_def)

lemma reg_handles_logged [simp]: "reg_handles (logged c e s) = reg_handles s"
  by (simp add: logged_def)

lemma handle_target_logged [simp]: "handle_target (logged c e s) h = handle_target s h"
  by (simp add: handle_target_def logged_def granted_on_def split: option.splits)

lemma handle_target_opened:
  "handle_target (s\<lparr>reg_handles := (fresh_handle s, t, a) # reg_handles s\<rparr>) (fresh_handle s) = Some (t, a)"
  by (simp add: handle_target_def fresh_handle_not_predefined)

lemma handle_target_path:
  assumes "reg_handles s' = reg_handles s" and "handle_target s r = Some (q, g)"
  shows "\<exists>g'. handle_target s' r = Some (q, g')"
  using assms by (auto simp: handle_target_def split: option.splits)

lemma handle_target_path_opened:
  assumes "reg_handles s' = (fresh_handle s, t, a) # reg_handles s" and "handle_target s r = Some (q, g)"
  shows "\<exists>g'. handle_target s' r = Some (q, g')"
proof (cases "predefined_root r")
  case None
  with assms(2) have "map_of (reg_handles s) r = Some (q, g)"
    by (simp add: handle_target_def)
  with map_of_fresh_handle [of s] have "r \<noteq> fresh_handle s" by auto
  with None assms show ?thesis by (simp add: handle_target_def)
next
  case (Some a)
  with assms show ?thesis by (simp add: handle_target_def)
qed

lemma check_open_Inr:
  "check_open s r p a = Inr t \<Longrightarrow>
     \<exists>q g key. handle_target s r = Some (q, g) \<and> t = q @ path_components p \<and>
       map_of (reg_keys s) t = Some key \<and> stored_key s r p = Some key \<and> a AND kgranted key = a"
  by (auto simp: check_open_def stored_key_def split: option.splits if_splits)

lemma check_open_Inl_or_Inr:
  "check_open s r p a =
     (case handle_target s r of
        None \<Rightarrow> Inl ERROR_INVALID_HANDLE
      | Some (q, g) \<Rightarrow>
          (case stored_key s r p of
             None \<Rightarrow> Inl ERROR_FILE_NOT_FOUND
           | Some key \<Rightarrow> if a AND kgranted key = a then Inr (q @ path_components p)
                         else Inl ERROR_ACCESS_DENIED))"
  by (simp add: check_open_def stored_key_def split: option.splits)

lemma typed_get_after_open:
  assumes "check_open s r p a = Inr t" and "a AND QUERY_VALUE \<noteq> 0"
    and "S = logged c e (s\<lparr>reg_handles := (fresh_handle s, t, a) # reg_handles s\<rparr>)"
  shows "typed_get sel z (fresh_handle s) n S =
         (case value_at s r p n of
            None \<Rightarrow> ((z, 0, Some ERROR_FILE_NOT_FOUND),
                     logged (GET (fresh_handle s) n) (Some ERROR_FILE_NOT_FOUND) S)
          | Some d \<Rightarrow> (case sel d of
                         None \<Rightarrow> ((z, valtype d, Some ErrUnexpectedType),
                                  logged (GET (fresh_handle s) n) (Some ErrUnexpectedType) S)
                       | Some v \<Rightarrow> ((v, valtype d, None), logged (GET (fresh_handle s) n) None S)))"
proof -
  from check_open_Inr [OF assms(1)] obtain key where
    key: "map_of (reg_keys s) t = Some key" "stored_key s r p = Some key" by blast
  have "query_value S (fresh_handle s) n =
        (case map_of (kvalues key) n of None \<Rightarrow> Inl ERROR_FILE_NOT_FOUND | Some d \<Rightarrow> Inr d)"
    using assms(2) key(1) by (simp add: assms(3) query_value_def handle_target_opened)
  then show ?thesis
    using key(2) by (simp add: typed_get_def value_at_def split: option.splits)
qed

lemma check_write_after_open:
  assumes "check_open s r p a = Inr t" and "a AND SET_VALUE \<noteq> 0"
    and "S = logged c e (s\<lparr>reg_handles := (fresh_handle s, t, a) # reg_handles s\<rparr>)"
  shows "\<exists>key. stored_key s r p = Some key \<and> check_write S (fresh_handle s) = Inr (t, key)"
proof -
  from check_open_Inr [OF assms(1)] obtain key where
    key: "map_of (reg_keys s) t = Some key" "stored_key s r p = Some key" by blast
  then show ?thesis
    using assms(2) by (simp add: assms(3) check_write_def handle_target_opened)
qed

lemma stored_key_after_update:
  assumes "check_open s r p a = Inr t"
    and "reg_handles s' = reg_handles s"
    and "reg_keys s' = AList.update t key' (reg_keys s)"
  shows "stored_key s' r p = Some key'"
proof -
  from check_open_Inr [OF assms(1)] obtain q g where
    q: "handle_target s r = Some (q, g)" "t = q @ path_components p" by blast
  from handle_target_path [OF assms(2) q(1)] obtain g' where "handle_target s' r = Some (q, g')" ..
  then show ?thesis
    using q(2) assms(3) by (simp add: stored_key_def update_conv')
qed

lemma QUERY_VALUE_nonzero: "QUERY_VALUE AND QUERY_VALUE \<noteq> 0"
  by (simp add: QUERY_VALUE_def)

lemma WRITE_SET_VALUE_nonzero: "WRITE AND SET_VALUE \<noteq> 0"
  by (simp add: WRITE_def SET_VALUE_def)

lemma ReadDWordValue_result:
  "fst (ReadDWordValue r p n s) =
     (case check_open s r p QUERY_VALUE of
        Inl e \<Rightarrow> (0, Some e)
      | Inr t \<Rightarrow>
          (case value_at s r p n of
             None \<Rightarrow> (0, Some ERROR_FILE_NOT_FOUND)
           | Some d \<Rightarrow>
               (case as_dword d of
                  None \<Rightarrow> (0, Some ErrUnexpectedType)
                | Some v \<Rightarrow> (v, None))))"
proof (cases "check_open s r p QUERY_VALUE")
  case (Inl e)
  then show ?thesis by (simp add: ReadDWordValue_def registry_OpenKey_def)
next
  case (Inr t)
  note get = typed_get_after_open [OF Inr QUERY_VALUE_nonzero refl, of as_dword _ n]
  show ?thesis
    using Inr by (simp add: ReadDWordValue_def registry_OpenKey_def Key_GetDWordValue_def get split: option.splits)
qed

lemma ReadBinaryValue_result:
  "fst (ReadBinaryValue r p n s) =
     (case check_open s r p QUERY_VALUE of
        Inl e \<Rightarrow> ([], Some e)
      | Inr t \<Rightarrow>
          (case value_at s r p n of
             None \<Rightarrow> ([], Some ERROR_FILE_NOT_FOUND)
           | Some d \<Rightarrow>
               (case as_binary d of
                  None \<Rightarrow> ([], Some ErrUnexpectedType)
                | Some v \<Rightarrow> (v, None))))"
proof (cases "check_open s r p QUERY_VALUE")
  case (Inl e)
  then show ?thesis by (simp add: ReadBinaryValue_def registry_OpenKey_def)
next
  case (Inr t)
  note get = typed_get_after_open [OF Inr QUERY_VALUE_nonzero refl, of as_binary _ n]
  show ?thesis
    using Inr by (simp add: ReadBinaryValue_def registry_OpenKey_def Key_GetBinaryValue_def get split: option.splits)
qed

lemma ReadMultiStringValue_result:
  "fst (ReadMultiStringValue r p n s) =
     (case check_open s r p QUERY_VALUE of
        Inl e \<Rightarrow> ([], Some e)
      | Inr t \<Rightarrow>
          (case value_at s r p n of
             None \<Rightarrow> ([], Some ERROR_FILE_NOT_FOUND)
           | Some d \<Rightarrow>
               (case as_strings d of
                  None \<Rightarrow> ([], Some ErrUnexpectedType)
                | Some v \<Rightarrow> (v, None))))"
proof (cases "check_open s r p QUERY_VALUE")
  case (Inl e)
  then show ?thesis by (simp add: ReadMultiStringValue_def registry_OpenKey_def)
next
  case (Inr t)
  note get = typed_get_after_open [OF Inr QUERY_VALUE_nonzero refl, of as_strings _ n]
  show ?thesis
    using Inr by (simp add: ReadMultiStringValue_def registry_OpenKey_def Key_GetStringsValue_def get split: option.splits)
qed

lemma ReadQWordValue_result:
  "fst (ReadQWordValue r p n s) =
     (case check_open s r p QUERY_VALUE of
        Inl e \<Rightarrow> (0, Some e)
      | Inr t \<Rightarrow>
          (case value_at s r p n of
             None \<Rightarrow> (0, Some ERROR_FILE_NOT_FOUND)
           | Some d \<Rightarrow>
               (case as_qword d of
                  None \<Rightarrow> (0, Some ErrUnexpectedType)
                | Some v \<Rightarrow> (v, None))))"
proof (cases "check_open s r p QUERY_VALUE")
  case (Inl e)
  then show ?thesis by (simp add: ReadQWordValue_def registry_OpenKey_def)
next
  case (Inr t)
  note get = typed_get_after_open [OF Inr QUERY_VALUE_nonzero refl, of as_qword _ n]
  show ?thesis
    using Inr by (simp add: ReadQWordValue_def registry_OpenKey_def Key_GetQWordValue_def get split: option.splits)
qed

lemma ReadExpandStringValue_result:
  "fst (ReadExpandStringValue r p n s) =
     (case check_open s r p QUERY_VALUE of
        Inl e \<Rightarrow> ([], Some e)
      | Inr t \<Rightarrow>
          (case value_at s r p n of
             None \<Rightarrow> ([], Some ERROR_FILE_NOT_FOUND)
           | Some d \<Rightarrow>
               (case as_expand_string d of
                  None \<Rightarrow> ([], Some ErrUnexpectedType)
                | Some v \<Rightarrow> (v, None))))"
proof (cases "check_open s r p QUERY_VALUE")
  case (Inl e)
  then show ?thesis by (simp add: ReadExpandStringValue_def registry_OpenKey_def)
next
  case (Inr t)
  note get = typed_get_after_open [OF Inr QUERY_VALUE_nonzero refl, of as_expand_string _ n]
  show ?thesis
    using Inr by (simp add: ReadExpandStringValue_def registry_OpenKey_def Key_GetExpandStringValue_def get split: option.splits)
qed

lemma ReadInt32Value_result:
  "fst (ReadInt32Value r p n s) =
     (case check_open s r p QUERY_VALUE of
        Inl e \<Rightarrow> (0, Some e)
      | Inr t \<Rightarrow>
          (case value_at s r p n of
             None \<Rightarrow> (0, Some ERROR_FILE_NOT_FOUND)
           | Some d \<Rightarrow>
               (case as_dword d of
                  None \<Rightarrow> (0, Some ErrUnexpectedType)
                | Some v \<Rightarrow> (v, None))))"
proof (cases "check_open s r p QUERY_VALUE")
  case (Inl e)
  then show ?thesis by (simp add: ReadInt32Value_def registry_OpenKey_def)
next
  case (Inr t)
  note get = typed_get_after_open [OF Inr QUERY_VALUE_nonzero refl, of as_dword _ n]
  show ?thesis
    using Inr by (simp add: ReadInt32Value_def registry_OpenKey_def Key_GetIntValue_def get split: option.splits)
qed

lemma ReadInt64Value_result:
  "fst (ReadInt64Value r p n s) =
     (case check_open s r p QUERY_VALUE of
        Inl e \<Rightarrow> (0, Some e)
      | Inr t \<Rightarrow>
          (case value_at s r p n of
             None \<Rightarrow> (0, Some ERROR_FILE_NOT_FOUND)
           | Some d \<Rightarrow>
               (case as_dword d of
                  None \<Rightarrow> (0, Some ErrUnexpectedType)
                | Some v \<Rightarrow> (scast v, None))))"
proof (cases "check_open s r p QUERY_VALUE")
  case (Inl e)
  then show ?thesis by (simp add: ReadInt64Value_def registry_OpenKey_def)
next
  case (Inr t)
  note get = typed_get_after_open [OF Inr QUERY_VALUE_nonzero refl, of as_dword _ n]
  show ?thesis
    using Inr by (simp add: ReadInt64Value_def registry_OpenKey_def Key_GetIntValue_def get split: option.splits)
qed


lemma ValueExists_result:
  "fst (ValueExists r p n s) =
     (case check_open s r p QUERY_VALUE of
        Inl e \<Rightarrow> False
      | Inr t \<Rightarrow>
          (case value_at s r p n of
             None \<Rightarrow> False
           | Some d \<Rightarrow> as_string d \<noteq> None))"
proof (cases "check_open s r p QUERY_VALUE")
  case (Inl e)
  then show ?thesis by (simp add: ValueExists_def registry_OpenKey_def)
next
  case (Inr t)
  note get = typed_get_after_open [OF Inr QUERY_VALUE_nonzero refl, of as_string _ n]
  show ?thesis
    using Inr
    by (auto simp: ValueExists_def registry_OpenKey_def Key_GetStringValue_def get
        split: option.splits)
qed

lemma WriteDWordValue_effect:
  assumes "fst (WriteDWordValue r p n d s) = None"
  shows "value_at (snd (WriteDWordValue r p n d s)) r p n = Some (REG_DWORD d) \<and>
         may_query (snd (WriteDWordValue r p n d s)) r p = may_query s r p"
proof (cases "check_open s r p WRITE")
  case (Inl e)
  with assms show ?thesis by (simp add: WriteDWordValue_def registry_OpenKey_def)
next
  case (Inr t)
  from check_write_after_open [OF Inr WRITE_SET_VALUE_nonzero refl] obtain key where
    key: "stored_key s r p = Some key"
      "check_write
         (logged (OPEN r p WRITE) None
            (s\<lparr>reg_handles := (fresh_handle s, t, WRITE) # reg_handles s\<rparr>))
         (fresh_handle s) = Inr (t, key)" by blast
  have "reg_keys (snd (WriteDWordValue r p n d s)) =
          AList.update t (key\<lparr>kvalues := AList.update n (REG_DWORD d) (kvalues key)\<rparr>) (reg_keys s)"
    using Inr key(2)
    by (simp add: WriteDWordValue_def registry_OpenKey_def Key_SetDWordValue_def set_value_def Key_Close_def)
  from stored_key_after_update [OF Inr WriteDWordValue_handles this]
  show ?thesis using key(1)
    by (simp add: value_at_def may_query_def update_conv')
qed

lemma WriteBinaryValue_effect:
  assumes "fst (WriteBinaryValue r p n d s) = None"
  shows "value_at (snd (WriteBinaryValue r p n d s)) r p n = Some (REG_BINARY d) \<and>
         may_query (snd (WriteBinaryValue r p n d s)) r p = may_query s r p"
proof (cases "check_open s r p WRITE")
  case (Inl e)
  with assms show ?thesis by (simp add: WriteBinaryValue_def registry_OpenKey_def)
next
  case (Inr t)
  from check_write_after_open [OF Inr WRITE_SET_VALUE_nonzero refl] obtain key where
    key: "stored_key s r p = Some key"
      "check_write
         (logged (OPEN r p WRITE) None
            (s\<lparr>reg_handles := (fresh_handle s, t, WRITE) # reg_handles s\<rparr>))
         (fresh_handle s) = Inr (t, key)" by blast
  have "reg_keys (snd (WriteBinaryValue r p n d s)) =
          AList.update t (key\<lparr>kvalues := AList.update n (REG_BINARY d) (kvalues key)\<rparr>) (reg_keys s)"
    using Inr key(2)
    by (simp add: WriteBinaryValue_def registry_OpenKey_def Key_SetBinaryValue_def set_value_def Key_Close_def)
  from stored_key_after_update [OF Inr WriteBinaryValue_handles this]
  show ?thesis using key(1)
    by (simp add: value_at_def may_query_def update_conv')
qed

lemma WriteMultiStringValue_effect:
  assumes "fst (WriteMultiStringValue r p n d s) = None"
  shows "value_at (snd (WriteMultiStringValue r p n d s)) r p n = Some (REG_MULTI_SZ d) \<and>
         may_query (snd (WriteMultiStringValue r p n d s)) r p = may_query s r p"
proof (cases "check_open s r p WRITE")
  case (Inl e)
  with assms show ?thesis by (simp add: WriteMultiStringValue_def registry_OpenKey_def)
next
  case (Inr t)
  from check_write_after_open [OF Inr WRITE_SET_VALUE_nonzero refl] obtain key where
    key: "stored_key s r p = Some key"
      "check_write
         (logged (OPEN r p WRITE) None
            (s\<lparr>reg_handles := (fresh_handle s, t, WRITE) # reg_handles s\<rparr>))
         (fresh_handle s) = Inr (t, key)" by blast
  have "reg_keys (snd (WriteMultiStringValue r p n d s)) =
          AList.update t (key\<lparr>kvalues := AList.update n (REG_MULTI_SZ d) (kvalues key)\<rparr>) (reg_keys s)"
    using Inr key(2)
    by (simp add: WriteMultiStringValue_def registry_OpenKey_def Key_SetStringsValue_def set_value_def Key_Close_def)
  from stored_key_after_update [OF Inr WriteMultiStringValue_handles this]
  show ?thesis using key(1)
    by (simp add: value_at_def may_query_def update_conv')
qed

lemma WriteQWordValue_effect:
  assumes "fst (WriteQWordValue r p n d s) = None"
  shows "value_at (snd (WriteQWordValue r p n d s)) r p n = Some (REG_QWORD d) \<and>
         may_query (snd (WriteQWordValue r p n d s)) r p = may_query s r p"
proof (cases "check_open s r p WRITE")
  case (Inl e)
  with assms show ?thesis by (simp add: WriteQWordValue_def registry_OpenKey_def)
next
  case (Inr t)
  from check_write_after_open [OF Inr WRITE_SET_VALUE_nonzero refl] obtain key where
    key: "stored_key s r p = Some key"
      "check_write
         (logged (OPEN r p WRITE) None
            (s\<lparr>reg_handles := (fresh_handle s, t, WRITE) # reg_handles s\<rparr>))
         (fresh_handle s) = Inr (t, key)" by blast
  have "reg_keys (snd (WriteQWordValue r p n d s)) =
          AList.update t (key\<lparr>kvalues := AList.update n (REG_QWORD d) (kvalues key)\<rparr>) (reg_keys s)"
    using Inr key(2)
    by (simp add: WriteQWordValue_def registry_OpenKey_def Key_SetQWordValue_def set_value_def Key_Close_def)
  from stored_key_after_update [OF Inr WriteQWordValue_handles this]
  show ?thesis using key(1)
    by (simp add: value_at_def may_query_def update_conv')
qed

lemma WriteExpandStringValue_effect:
  assumes "fst (WriteExpandStringValue r p n d s) = None"
  shows "value_at (snd (WriteExpandStringValue r p n d s)) r p n = Some (REG_EXPAND_SZ d) \<and>
         may_query (snd (WriteExpandStringValue r p n d s)) r p = may_query s r p"
proof (cases "check_open s r p WRITE")
  case (Inl e)
  with assms show ?thesis by (simp add: WriteExpandStringValue_def registry_OpenKey_def)
next
  case (Inr t)
  from check_write_after_open [OF Inr WRITE_SET_VALUE_nonzero refl] obtain key where
    key: "stored_key s r p = Some key"
      "check_write
         (logged (OPEN r p WRITE) None
            (s\<lparr>reg_handles := (fresh_handle s, t, WRITE) # reg_handles s\<rparr>))
         (fresh_handle s) = Inr (t, key)" by blast
  have "reg_keys (snd (WriteExpandStringValue r p n d s)) =
          AList.update t (key\<lparr>kvalues := AList.update n (REG_EXPAND_SZ d) (kvalues key)\<rparr>) (reg_keys s)"
    using Inr key(2)
    by (simp add: WriteExpandStringValue_def registry_OpenKey_def Key_SetExpandStringValue_def set_value_def Key_Close_def)
  from stored_key_after_update [OF Inr WriteExpandStringValue_handles this]
  show ?thesis using key(1)
    by (simp add: value_at_def may_query_def update_conv')
qed

lemma WriteInt32Value_effect:
  assumes "fst (WriteInt32Value r p n d s) = None"
  shows "value_at (snd (WriteInt32Value r p n d s)) r p n = Some (REG_DWORD d) \<and>
         may_query (snd (WriteInt32Value r p n d s)) r p = may_query s r p"
proof (cases "check_open s r p WRITE")
  case (Inl e)
  with assms show ?thesis by (simp add: WriteInt32Value_def registry_OpenKey_def)
next
  case (Inr t)
  from check_write_after_open [OF Inr WRITE_SET_VALUE_nonzero refl] obtain key where
    key: "stored_key s r p = Some key"
      "check_write
         (logged (OPEN r p WRITE) None
            (s\<lparr>reg_handles := (fresh_handle s, t, WRITE) # reg_handles s\<rparr>))
         (fresh_handle s) = Inr (t, key)" by blast
  have "reg_keys (snd (WriteInt32Value r p n d s)) =
          AList.update t (key\<lparr>kvalues := AList.update n (REG_DWORD d) (kvalues key)\<rparr>) (reg_keys s)"
    using Inr key(2)
    by (simp add: WriteInt32Value_def registry_OpenKey_def Key_SetIntValue_def set_value_def Key_Close_def)
  from stored_key_after_update [OF Inr WriteInt32Value_handles this]
  show ?thesis using key(1)
    by (simp add: value_at_def may_query_def update_conv')
qed

lemma WriteInt64Value_effect:
  assumes "fst (WriteInt64Value r p n d s) = None"
  shows "value_at (snd (WriteInt64Value r p n d s)) r p n = Some (REG_DWORD (ucast d)) \<and>
         may_query (snd (WriteInt64Value r p n d s)) r p = may_query s r p"
proof (cases "check_open s r p WRITE")
  case (Inl e)
  with assms show ?thesis by (simp add: WriteInt64Value_def registry_OpenKey_def)
next
  case (Inr t)
  from check_write_after_open [OF Inr WRITE_SET_VALUE_nonzero refl] obtain key where
    key: "stored_key s r p = Some key"
      "check_write
         (logged (OPEN r p WRITE) None
            (s\<lparr>reg_handles := (fresh_handle s, t, WRITE) # reg_handles s\<rparr>))
         (fresh_handle s) = Inr (t, key)" by blast
  have "reg_keys (snd (WriteInt64Value r p n d s)) =
          AList.update t (key\<lparr>kvalues := AList.update n (REG_DWORD (ucast d)) (kvalues key)\<rparr>) (reg_keys s)"
    using Inr key(2)
    by (simp add: WriteInt64Value_def registry_OpenKey_def Key_SetIntValue_def set_value_def Key_Close_def)
  from stored_key_after_update [OF Inr WriteInt64Value_handles this]
  show ?thesis using key(1)
    by (simp add: value_at_def may_query_def update_conv')
qed

lemma WriteDWordValue_error:
  "fst (WriteDWordValue r p n d s) =
     (case check_open s r p WRITE of Inl e \<Rightarrow> Some e | Inr t \<Rightarrow> None)"
proof (cases "check_open s r p WRITE")
  case (Inl e)
  then show ?thesis by (simp add: WriteDWordValue_def registry_OpenKey_def)
next
  case (Inr t)
  from check_write_after_open [OF Inr WRITE_SET_VALUE_nonzero refl] obtain key where
      "check_write
         (logged (OPEN r p WRITE) None
            (s\<lparr>reg_handles := (fresh_handle s, t, WRITE) # reg_handles s\<rparr>))
         (fresh_handle s) = Inr (t, key)" by blast
  with Inr show ?thesis
    by (simp add: WriteDWordValue_def registry_OpenKey_def Key_SetDWordValue_def set_value_def)
qed

lemma WriteBinaryValue_error:
  "fst (WriteBinaryValue r p n d s) =
     (case check_open s r p WRITE of Inl e \<Rightarrow> Some e | Inr t \<Rightarrow> None)"
proof (cases "check_open s r p WRITE")
  case (Inl e)
  then show ?thesis by (simp add: WriteBinaryValue_def registry_OpenKey_def)
next
  case (Inr t)
  from check_write_after_open [OF Inr WRITE_SET_VALUE_nonzero refl] obtain key where
      "check_write
         (logged (OPEN r p WRITE) None
            (s\<lparr>reg_handles := (fresh_handle s, t, WRITE) # reg_handles s\<rparr>))
         (fresh_handle s) = Inr (t, key)" by blast
  with Inr show ?thesis
    by (simp add: WriteBinaryValue_def registry_OpenKey_def Key_SetBinaryValue_def set_value_def)
qed

lemma WriteMultiStringValue_error:
  "fst (WriteMultiStringValue r p n d s) =
     (case check_open s r p WRITE of Inl e \<Rightarrow> Some e | Inr t \<Rightarrow> None)"
proof (cases "check_open s r p WRITE")
  case (Inl e)
  then show ?thesis by (simp add: WriteMultiStringValue_def registry_OpenKey_def)
next
  case (Inr t)
  from check_write_after_open [OF Inr WRITE_SET_VALUE_nonzero refl] obtain key where
      "check_write
         (logged (OPEN r p WRITE) None
            (s\<lparr>reg_handles := (fresh_handle s, t, WRITE) # reg_handles s\<rparr>))
         (fresh_handle s) = Inr (t, key)" by blast
  with Inr show ?thesis
    by (simp add: WriteMultiStringValue_def registry_OpenKey_def Key_SetStringsValue_def set_value_def)
qed

lemma WriteQWordValue_error:
  "fst (WriteQWordValue r p n d s) =
     (case check_open s r p WRITE of Inl e \<Rightarrow> Some e | Inr t \<Rightarrow> None)"
proof (cases "check_open s r p WRITE")
  case (Inl e)
  then show ?thesis by (simp add: WriteQWordValue_def registry_OpenKey_def)
next
  case (Inr t)
  from check_write_after_open [OF Inr WRITE_SET_VALUE_nonzero refl] obtain key where
      "check_write
         (logged (OPEN r p WRITE) None
            (s\<lparr>reg_handles := (fresh_handle s, t, WRITE) # reg_handles s\<rparr>))
         (fresh_handle s) = Inr (t, key)" by blast
  with Inr show ?thesis
    by (simp add: WriteQWordValue_def registry_OpenKey_def Key_SetQWordValue_def set_value_def)
qed

lemma WriteExpandStringValue_error:
  "fst (WriteExpandStringValue r p n d s) =
     (case check_open s r p WRITE of Inl e \<Rightarrow> Some e | Inr t \<Rightarrow> None)"
proof (cases "check_open s r p WRITE")
  case (Inl e)
  then show ?thesis by (simp add: WriteExpandStringValue_def registry_OpenKey_def)
next
  case (Inr t)
  from check_write_after_open [OF Inr WRITE_SET_VALUE_nonzero refl] obtain key where
      "check_write
         (logged (OPEN r p WRITE) None
            (s\<lparr>reg_handles := (fresh_handle s, t, WRITE) # reg_handles s\<rparr>))
         (fresh_handle s) = Inr (t, key)" by blast
  with Inr show ?thesis
    by (simp add: WriteExpandStringValue_def registry_OpenKey_def Key_SetExpandStringValue_def set_value_def)
qed

lemma WriteInt32Value_error:
  "fst (WriteInt32Value r p n d s) =
     (case check_open s r p WRITE of Inl e \<Rightarrow> Some e | Inr t \<Rightarrow> None)"
proof (cases "check_open s r p WRITE")
  case (Inl e)
  then show ?thesis by (simp add: WriteInt32Value_def registry_OpenKey_def)
next
  case (Inr t)
  from check_write_after_open [OF Inr WRITE_SET_VALUE_nonzero refl] obtain key where
      "check_write
         (logged (OPEN r p WRITE) None
            (s\<lparr>reg_handles := (fresh_handle s, t, WRITE) # reg_handles s\<rparr>))
         (fresh_handle s) = Inr (t, key)" by blast
  with Inr show ?thesis
    by (simp add: WriteInt32Value_def registry_OpenKey_def Key_SetIntValue_def set_value_def)
qed

lemma WriteInt64Value_error:
  "fst (WriteInt64Value r p n d s) =
     (case check_open s r p WRITE of Inl e \<Rightarrow> Some e | Inr t \<Rightarrow> None)"
proof (cases "check_open s r p WRITE")
  case (Inl e)
  then show ?thesis by (simp add: WriteInt64Value_def registry_OpenKey_def)
next
  case (Inr t)
  from check_write_after_open [OF Inr WRITE_SET_VALUE_nonzero refl] obtain key where
      "check_write
         (logged (OPEN r p WRITE) None
            (s\<lparr>reg_handles := (fresh_handle s, t, WRITE) # reg_handles s\<rparr>))
         (fresh_handle s) = Inr (t, key)" by blast
  with Inr show ?thesis
    by (simp add: WriteInt64Value_def registry_OpenKey_def Key_SetIntValue_def set_value_def)
qed

lemma may_query_check_open:
  "may_query s r p \<Longrightarrow> \<exists>t. check_open s r p QUERY_VALUE = Inr t"
  by (auto simp: may_query_def check_open_Inl_or_Inr stored_key_def split: option.splits)

subsection \<open>Conversions between 32-bit and 64-bit integers\<close>

lemma sint_int64_of_int32: "sint (scast (x :: int32) :: int64) = sint x"
  by (simp add: sint_up_scast is_up)

lemma sint_int32_of_int64: "sint (ucast (d :: int64) :: int32) = signed_take_bit 31 (sint d)"
proof -
  have "sint (ucast d :: int32) = signed_take_bit 31 (uint d)"
    by (simp add: signed_ucast_eq)
  also have "\<dots> = signed_take_bit 31 (signed_take_bit 63 (uint d))"
    by simp
  also have "signed_take_bit 63 (uint d) = sint d"
    by (simp add: sint_uint)
  finally show ?thesis .
qed

lemma int64_int32_int64_eq_iff:
  "(scast (ucast (d :: int64) :: int32) :: int64) = d \<longleftrightarrow> - (2 ^ 31) \<le> sint d \<and> sint d < 2 ^ 31"
proof -
  have "(scast (ucast d :: int32) :: int64) = d \<longleftrightarrow>
          sint (scast (ucast d :: int32) :: int64) = sint d"
    by (rule word_eq_iff_signed)
  also have "\<dots> \<longleftrightarrow> signed_take_bit 31 (sint d) = sint d"
    by (simp only: sint_int64_of_int32 sint_int32_of_int64)
  also have "\<dots> \<longleftrightarrow> - (2 ^ 31) \<le> sint d \<and> sint d < 2 ^ 31"
    by (rule signed_take_bit_int_eq_self_iff)
  finally show ?thesis .
qed

lemma sint_int64_of_int32_range:
  "- (2 ^ 31) \<le> sint (scast (x :: int32) :: int64) \<and> sint (scast (x :: int32) :: int64) < 2 ^ 31"
  using sint_ge [of x] sint_lt [of x] by (simp add: sint_int64_of_int32)

subsection \<open>The sample registry\<close>

lemma components_Software: "path_components ''Software'' = [''Software'']"
  by (simp add: path_components_def)

lemma components_Locked: "path_components ''Locked'' = [''Locked'']"
  by (simp add: path_components_def)

lemma components_Software_App: "path_components Software_App = [''Software'', ''App'']"
  by (simp add: path_components_def Software_App_def)

lemma reg0_CURRENT_USER:
  "handle_target reg0 CURRENT_USER = Some ([''HKEY_CURRENT_USER''], ALL_ACCESS)"
  by (simp add: handle_target_def predefined_root_def CURRENT_USER_def CLASSES_ROOT_def
      reg0_def granted_on_def)

lemma reg0_Software:
  "stored_key reg0 CURRENT_USER ''Software'' =
     Some \<lparr>kvalues = [(''Name'', REG_SZ ''winreg''), (''Count'', REG_DWORD 7),
                      (''Home'', REG_EXPAND_SZ ''%USERPROFILE%'')],
           kgranted = ALL_ACCESS\<rparr>"
  by (simp add: stored_key_def reg0_CURRENT_USER components_Software) (simp add: reg0_def)

lemma reg0_Locked:
  "stored_key reg0 CURRENT_USER ''Locked'' =
     Some \<lparr>kvalues = [(''Name'', REG_SZ ''secret'')], kgranted = 0\<rparr>"
  by (simp add: stored_key_def reg0_CURRENT_USER components_Locked) (simp add: reg0_def)

lemma reg0_open_Software_query:
  "check_open reg0 CURRENT_USER ''Software'' QUERY_VALUE = Inr [''HKEY_CURRENT_USER'', ''Software'']"
  by (simp add: check_open_Inl_or_Inr reg0_CURRENT_USER reg0_Software components_Software
      QUERY_VALUE_def ALL_ACCESS_def)

lemma reg0_open_Software_write:
  "check_open reg0 CURRENT_USER ''Software'' WRITE = Inr [''HKEY_CURRENT_USER'', ''Software'']"
  by (simp add: check_open_Inl_or_Inr reg0_CURRENT_USER reg0_Software components_Software
      WRITE_def ALL_ACCESS_def)

lemma reg0_open_Locked_query:
  "check_open reg0 CURRENT_USER ''Locked'' QUERY_VALUE = Inl ERROR_ACCESS_DENIED"
  by (simp add: check_open_Inl_or_Inr reg0_CURRENT_USER reg0_Locked QUERY_VALUE_def)

lemma reg0_may_query_Software: "may_query reg0 CURRENT_USER ''Software''"
  by (simp add: may_query_def reg0_Software QUERY_VALUE_def ALL_ACCESS_def)

section \<open>Round trips of typed values\<close>

lemma read_back:
  assumes "may_query s r p" and "fst (W s) = None \<Longrightarrow> value_at (snd (W s)) r p n = Some d \<and> may_query (snd (W s)) r p = may_query s r p"
    and "fst (W s) = None"
  shows "\<exists>t. check_open (snd (W s)) r p QUERY_VALUE = Inr t" and "value_at (snd (W s)) r p n = Some d"
  using assms may_query_check_open [of "snd (W s)" r p] by auto

text \<open>
  The six pairs whose writer stores its argument as it is (DWORD, QWORD, expandable
  string, multi-string, binary, int32): when the writer returns no error and the caller
  holds the query right on the key, the matching reader then returns the written value and
  no error.
\<close>

lemma typed_write_read_roundtrip:
  assumes "may_query s root keyPath"
  shows
    "(fst (WriteDWordValue root keyPath name d32 s) = None \<longrightarrow>
        fst (ReadDWordValue root keyPath name (snd (WriteDWordValue root keyPath name d32 s)))
          = (d32, None)) \<and>
     (fst (WriteQWordValue root keyPath name d64 s) = None \<longrightarrow>
        fst (ReadQWordValue root keyPath name (snd (WriteQWordValue root keyPath name d64 s)))
          = (d64, None)) \<and>
     (fst (WriteExpandStringValue root keyPath name str s) = None \<longrightarrow>
        fst (ReadExpandStringValue root keyPath name
               (snd (WriteExpandStringValue root keyPath name str s))) = (str, None)) \<and>
     (fst (WriteMultiStringValue root keyPath name strs s) = None \<longrightarrow>
        fst (ReadMultiStringValue root keyPath name
               (snd (WriteMultiStringValue root keyPath name strs s))) = (strs, None)) \<and>
     (fst (WriteBinaryValue root keyPath name bytes s) = None \<longrightarrow>
        fst (ReadBinaryValue root keyPath name (snd (WriteBinaryValue root keyPath name bytes s)))
          = (bytes, None)) \<and>
     (fst (WriteInt32Value root keyPath name i32 s) = None \<longrightarrow>
        fst (ReadInt32Value root keyPath name (snd (WriteInt32Value root keyPath name i32 s)))
          = (i32, None))"
proof -
  have dword: "fst (ReadDWordValue root keyPath name (snd (WriteDWordValue root keyPath name d32 s))) = (d32, None)"
    if "fst (WriteDWordValue root keyPath name d32 s) = None"
    using read_back [of s root keyPath "WriteDWordValue root keyPath name d32", OF assms WriteDWordValue_effect that]
    by (auto simp: ReadDWordValue_result)
  have qword: "fst (ReadQWordValue root keyPath name (snd (WriteQWordValue root keyPath name d64 s))) = (d64, None)"
    if "fst (WriteQWordValue root keyPath name d64 s) = None"
    using read_back [of s root keyPath "WriteQWordValue root keyPath name d64", OF assms WriteQWordValue_effect that]
    by (auto simp: ReadQWordValue_result)
  have expand: "fst (ReadExpandStringValue root keyPath name (snd (WriteExpandStringValue root keyPath name str s))) = (str, None)"
    if "fst (WriteExpandStringValue root keyPath name str s) = None"
    using read_back [of s root keyPath "WriteExpandStringValue root keyPath name str", OF assms WriteExpandStringValue_effect that]
    by (auto simp: ReadExpandStringValue_result)
  have multi: "fst (ReadMultiStringValue root keyPath name (snd (WriteMultiStringValue root keyPath name strs s))) = (strs, None)"
    if "fst (WriteMultiStringValue root keyPath name strs s) = None"
    using read_back [of s root keyPath "WriteMultiStringValue root keyPath name strs", OF assms WriteMultiStringValue_effect that]
    by (auto simp: ReadMultiStringValue_result)
  have binary: "fst (ReadBinaryValue root keyPath name (snd (WriteBinaryValue root keyPath name bytes s))) = (bytes, None)"
    if "fst (WriteBinaryValue root keyPath name bytes s) = None"
    using read_back [of s root keyPath "WriteBinaryValue root keyPath name bytes", OF assms WriteBinaryValue_effect that]
    by (auto simp: ReadBinaryValue_result)
  have int32: "fst (ReadInt32Value root keyPath name (snd (WriteInt32Value root keyPath name i32 s))) = (i32, None)"
    if "fst (WriteInt32Value root keyPath name i32 s) = None"
    using read_back [of s root keyPath "WriteInt32Value root keyPath name i32", OF assms WriteInt32Value_effect that]
    by (auto simp: ReadInt32Value_result)
  from dword qword expand multi binary int32 show ?thesis by blast
qed

text \<open>
  On the sample registry: QWORD 123456789012 written under \<^verbatim>\<open>Software\<close> and read back,
  with the five other types next to it.
\<close>

lemma typed_write_read_roundtrip_on_sample:
  "may_query reg0 CURRENT_USER ''Software'' \<and>
   fst (WriteQWordValue CURRENT_USER ''Software'' ''Big'' 123456789012 reg0) = None \<and>
   fst (ReadQWordValue CURRENT_USER ''Software'' ''Big''
          (snd (WriteQWordValue CURRENT_USER ''Software'' ''Big'' 123456789012 reg0)))
     = (123456789012, None) \<and>
   fst (WriteDWordValue CURRENT_USER ''Software'' ''Big'' 4294967295 reg0) = None \<and>
   fst (ReadDWordValue CURRENT_USER ''Software'' ''Big''
          (snd (WriteDWordValue CURRENT_USER ''Software'' ''Big'' 4294967295 reg0)))
     = (4294967295, None) \<and>
   fst (WriteExpandStringValue CURRENT_USER ''Software'' ''Big'' ''%TEMP%'' reg0) = None \<and>
   fst (ReadExpandStringValue CURRENT_USER ''Software'' ''Big''
          (snd (WriteExpandStringValue CURRENT_USER ''Software'' ''Big'' ''%TEMP%'' reg0)))
     = (''%TEMP%'', None) \<and>
   fst (WriteMultiStringValue CURRENT_USER ''Software'' ''Big'' [''a'', '''', ''b''] reg0) = None \<and>
   fst (ReadMultiStringValue CURRENT_USER ''Software'' ''Big''
          (snd (WriteMultiStringValue CURRENT_USER ''Software'' ''Big'' [''a'', '''', ''b''] reg0)))
     = ([''a'', '''', ''b''], None) \<and>
   fst (WriteBinaryValue CURRENT_USER ''Software'' ''Big'' [0, 255] reg0) = None \<and>
   fst (ReadBinaryValue CURRENT_USER ''Software'' ''Big''
          (snd (WriteBinaryValue CURRENT_USER ''Software'' ''Big'' [0, 255] reg0)))
     = ([0, 255], None) \<and>
   fst (WriteInt32Value CURRENT_USER ''Software'' ''Big'' (- 1) reg0) = None \<and>
   fst (ReadInt32Value CURRENT_USER ''Software'' ''Big''
          (snd (WriteInt32Value CURRENT_USER ''Software'' ''Big'' (- 1) reg0)))
     = (- 1, None)"
  using typed_write_read_roundtrip [OF reg0_may_query_Software,
      of "''Big''" 4294967295 123456789012 "''%TEMP%''" "[''a'', '''', ''b'']" "[0, 255]" "- 1"]
  by (simp add: reg0_may_query_Software WriteQWordValue_error WriteDWordValue_error
      WriteExpandStringValue_error WriteMultiStringValue_error WriteBinaryValue_error
      WriteInt32Value_error reg0_open_Software_write)

text \<open>
  C1. The claim asks that a value written with a typed writer is read back unchanged by the
  matching typed reader, for every supported type. On the sample registry the QWORD pair
  does so at 123456789012, the spec's example. The int64 pair does not: at the same number
  \<^verbatim>\<open>WriteInt64Value\<close> returns no error, and \<^verbatim>\<open>ReadInt64Value\<close> then returns -1097262572
  and no error, because the writer stores \<^verbatim>\<open>int32(data)\<close>.
\<close>

theorem int64_roundtrip_failing_input:
  "fst (WriteQWordValue CURRENT_USER ''Software'' ''Big'' 123456789012 reg0) = None \<and>
   fst (ReadQWordValue CURRENT_USER ''Software'' ''Big''
          (snd (WriteQWordValue CURRENT_USER ''Software'' ''Big'' 123456789012 reg0)))
     = (123456789012, None) \<and>
   fst (WriteInt64Value CURRENT_USER ''Software'' ''Big'' 123456789012 reg0) = None \<and>
   fst (ReadInt64Value CURRENT_USER ''Software'' ''Big''
          (snd (WriteInt64Value CURRENT_USER ''Software'' ''Big'' 123456789012 reg0)))
     = (- 1097262572, None) \<and>
   fst (ReadInt64Value CURRENT_USER ''Software'' ''Big''
          (snd (WriteInt64Value CURRENT_USER ''Software'' ''Big'' 123456789012 reg0)))
     \<noteq> (123456789012, None)"
proof -
  have q: "fst (WriteQWordValue CURRENT_USER ''Software'' ''Big'' 123456789012 reg0) = None"
    by (simp add: WriteQWordValue_error reg0_open_Software_write)
  from read_back [of reg0 CURRENT_USER "''Software''"
      "WriteQWordValue CURRENT_USER ''Software'' ''Big'' 123456789012",
      OF reg0_may_query_Software WriteQWordValue_effect q]
  have qr: "fst (ReadQWordValue CURRENT_USER ''Software'' ''Big''
          (snd (WriteQWordValue CURRENT_USER ''Software'' ''Big'' 123456789012 reg0)))
     = (123456789012, None)"
    by (auto simp: ReadQWordValue_result)
  have w: "fst (WriteInt64Value CURRENT_USER ''Software'' ''Big'' 123456789012 reg0) = None"
    by (simp add: WriteInt64Value_error reg0_open_Software_write)
  from read_back [of reg0 CURRENT_USER "''Software''"
      "WriteInt64Value CURRENT_USER ''Software'' ''Big'' 123456789012",
      OF reg0_may_query_Software WriteInt64Value_effect w]
  have "fst (ReadInt64Value CURRENT_USER ''Software'' ''Big''
          (snd (WriteInt64Value CURRENT_USER ''Software'' ''Big'' 123456789012 reg0)))
     = (- 1097262572, None)"
    by (auto simp: ReadInt64Value_result)
  with q qr w show ?thesis by simp
qed

section \<open>The int64 pair\<close>

text \<open>
  C10. \<^verbatim>\<open>WriteInt64Value\<close> writes \<^verbatim>\<open>int32(d)\<close>: it is \<^verbatim>\<open>WriteInt32Value\<close> at the low 32 bits
  of its input, and after it succeeds the value stored is that DWORD.
  \<^verbatim>\<open>ReadInt64Value\<close> is \<^verbatim>\<open>ReadInt32Value\<close> with the value sign-extended, so its value
  always lies in the int32 range. Writing and then reading (with the query right held)
  returns the sign-extension of the low 32 bits, which is the input exactly when the input
  lies in the int32 range.
\<close>

theorem int64_pair_keeps_low_32_bits:
  "WriteInt64Value root keyPath name d s = WriteInt32Value root keyPath name (ucast d) s \<and>
   (fst (WriteInt64Value root keyPath name d s) = None \<longrightarrow>
      value_at (snd (WriteInt64Value root keyPath name d s)) root keyPath name
        = Some (REG_DWORD (ucast d))) \<and>
   ReadInt64Value root keyPath name s =
     (case ReadInt32Value root keyPath name s of ((v, e), s') \<Rightarrow> ((scast v, e), s')) \<and>
   - (2 ^ 31) \<le> sint (fst (fst (ReadInt64Value root keyPath name s))) \<and>
   sint (fst (fst (ReadInt64Value root keyPath name s))) < 2 ^ 31 \<and>
   (may_query s root keyPath \<longrightarrow> fst (WriteInt64Value root keyPath name d s) = None \<longrightarrow>
      fst (ReadInt64Value root keyPath name (snd (WriteInt64Value root keyPath name d s)))
        = (scast (ucast d :: int32), None) \<and>
      ((scast (ucast d :: int32) :: int64) = d \<longleftrightarrow> - (2 ^ 31) \<le> sint d \<and> sint d < 2 ^ 31))"
proof -
  have w: "WriteInt64Value root keyPath name d s = WriteInt32Value root keyPath name (ucast d) s"
    by (simp add: WriteInt64Value_def WriteInt32Value_def)
  have st: "value_at (snd (WriteInt64Value root keyPath name d s)) root keyPath name
        = Some (REG_DWORD (ucast d))"
    if "fst (WriteInt64Value root keyPath name d s) = None"
    using WriteInt64Value_effect [OF that] by simp
  have r: "ReadInt64Value root keyPath name s =
     (case ReadInt32Value root keyPath name s of ((v, e), s') \<Rightarrow> ((scast v, e), s'))"
    by (simp add: ReadInt64Value_def ReadInt32Value_def split: prod.splits option.splits)
  have "fst (fst (ReadInt64Value root keyPath name s)) =
          scast (fst (fst (ReadInt32Value root keyPath name s)))"
    by (simp add: r split: prod.splits)
  with sint_int64_of_int32_range [of "fst (fst (ReadInt32Value root keyPath name s))"]
  have rng: "- (2 ^ 31) \<le> sint (fst (fst (ReadInt64Value root keyPath name s)))"
    "sint (fst (fst (ReadInt64Value root keyPath name s))) < 2 ^ 31"
    by simp_all
  have rt: "fst (ReadInt64Value root keyPath name (snd (WriteInt64Value root keyPath name d s)))
        = (scast (ucast d :: int32), None)"
    if "may_query s root keyPath" "fst (WriteInt64Value root keyPath name d s) = None"
    using read_back [of s root keyPath "WriteInt64Value root keyPath name d",
        OF that(1) WriteInt64Value_effect that(2)]
    by (auto simp: ReadInt64Value_result)
  from w st r rng rt int64_int32_int64_eq_iff [of d] show ?thesis by blast
qed

theorem int64_pair_keeps_low_32_bits_witness:
  "may_query reg0 CURRENT_USER ''Software'' \<and>
   fst (WriteInt64Value CURRENT_USER ''Software'' ''Big'' 4294967301 reg0) = None \<and>
   value_at (snd (WriteInt64Value CURRENT_USER ''Software'' ''Big'' 4294967301 reg0))
     CURRENT_USER ''Software'' ''Big'' = Some (REG_DWORD 5) \<and>
   fst (ReadInt64Value CURRENT_USER ''Software'' ''Big''
          (snd (WriteInt64Value CURRENT_USER ''Software'' ''Big'' 4294967301 reg0))) = (5, None) \<and>
   fst (WriteInt64Value CURRENT_USER ''Software'' ''Big'' (- 5) reg0) = None \<and>
   fst (ReadInt64Value CURRENT_USER ''Software'' ''Big''
          (snd (WriteInt64Value CURRENT_USER ''Software'' ''Big'' (- 5) reg0))) = (- 5, None)"
proof -
  have w1: "fst (WriteInt64Value CURRENT_USER ''Software'' ''Big'' 4294967301 reg0) = None"
    and w2: "fst (WriteInt64Value CURRENT_USER ''Software'' ''Big'' (- 5) reg0) = None"
    by (simp_all add: WriteInt64Value_error reg0_open_Software_write)
  from int64_pair_keeps_low_32_bits [of CURRENT_USER "''Software''" "''Big''" 4294967301 reg0]
    reg0_may_query_Software w1
  have "value_at (snd (WriteInt64Value CURRENT_USER ''Software'' ''Big'' 4294967301 reg0))
          CURRENT_USER ''Software'' ''Big'' = Some (REG_DWORD (ucast (4294967301 :: int64))) \<and>
        fst (ReadInt64Value CURRENT_USER ''Software'' ''Big''
          (snd (WriteInt64Value CURRENT_USER ''Software'' ''Big'' 4294967301 reg0)))
          = (scast (ucast (4294967301 :: int64) :: int32), None)"
    by blast
  moreover
  from int64_pair_keeps_low_32_bits [of CURRENT_USER "''Software''" "''Big''" "- 5" reg0]
    reg0_may_query_Software w2
  have "fst (ReadInt64Value CURRENT_USER ''Software'' ''Big''
          (snd (WriteInt64Value CURRENT_USER ''Software'' ''Big'' (- 5) reg0)))
          = (scast (ucast (- 5 :: int64) :: int32), None)"
    by blast
  ultimately show ?thesis
    using w1 w2 reg0_may_query_Software by simp
qed

section \<open>Reading what is not there\<close>

text \<open>
  C4. When no value of the given name is stored under the key (or the key itself is not
  there), each of the seven typed readers without a default returns an error.
\<close>

theorem read_missing_value_is_error:
  assumes "value_at s root keyPath name = None"
  shows "snd (fst (ReadDWordValue root keyPath name s)) \<noteq> None \<and>
         snd (fst (ReadQWordValue root keyPath name s)) \<noteq> None \<and>
         snd (fst (ReadBinaryValue root keyPath name s)) \<noteq> None \<and>
         snd (fst (ReadMultiStringValue root keyPath name s)) \<noteq> None \<and>
         snd (fst (ReadExpandStringValue root keyPath name s)) \<noteq> None \<and>
         snd (fst (ReadInt32Value root keyPath name s)) \<noteq> None \<and>
         snd (fst (ReadInt64Value root keyPath name s)) \<noteq> None"
  using assms
  by (simp add: ReadDWordValue_result ReadQWordValue_result ReadBinaryValue_result
      ReadMultiStringValue_result ReadExpandStringValue_result ReadInt32Value_result
      ReadInt64Value_result split: sum.splits)

lemma reg0_no_Missing: "value_at reg0 CURRENT_USER ''Software'' ''Missing'' = None"
  by (simp add: value_at_def reg0_Software)

theorem read_missing_value_is_error_witness:
  "value_at reg0 CURRENT_USER ''Software'' ''Missing'' = None \<and>
   fst (ReadDWordValue CURRENT_USER ''Software'' ''Missing'' reg0) = (0, Some ERROR_FILE_NOT_FOUND) \<and>
   snd (fst (ReadQWordValue CURRENT_USER ''Software'' ''Missing'' reg0)) \<noteq> None \<and>
   snd (fst (ReadBinaryValue CURRENT_USER ''Software'' ''Missing'' reg0)) \<noteq> None \<and>
   snd (fst (ReadMultiStringValue CURRENT_USER ''Software'' ''Missing'' reg0)) \<noteq> None \<and>
   snd (fst (ReadExpandStringValue CURRENT_USER ''Software'' ''Missing'' reg0)) \<noteq> None \<and>
   snd (fst (ReadInt32Value CURRENT_USER ''Software'' ''Missing'' reg0)) \<noteq> None \<and>
   snd (fst (ReadInt64Value CURRENT_USER ''Software'' ''Missing'' reg0)) \<noteq> None"
  using read_missing_value_is_error [OF reg0_no_Missing]
  by (simp add: reg0_no_Missing ReadDWordValue_result reg0_open_Software_query)

section \<open>The string reader with a default, and the existence of a value\<close>

lemma OpenKey_None:
  assumes "registry_OpenKey r p a s = ((k, None), s1)"
  shows "\<exists>t. check_open s r p a = Inr t \<and> k = fresh_handle s \<and>
           s1 = logged (OPEN r p a) None (s\<lparr>reg_handles := (fresh_handle s, t, a) # reg_handles s\<rparr>)"
  using assms by (auto simp: registry_OpenKey_def split: sum.splits)

lemma OpenKey_Some:
  assumes "registry_OpenKey r p a s = ((k, Some e), s1)"
  shows "check_open s r p a = Inl e"
  using assms by (auto simp: registry_OpenKey_def split: sum.splits)

lemma GetStringValue_after_open:
  assumes "registry_OpenKey r p QUERY_VALUE s = ((k, None), s1)"
    and "Key_GetStringValue k n s1 = ((val, vt, get_err), s2)"
  shows "get_err = None \<longleftrightarrow> (\<exists>d. value_at s r p n = Some d \<and> as_string d = Some val)"
    and "get_err = None \<longleftrightarrow> (\<exists>d v. value_at s r p n = Some d \<and> as_string d = Some v)"
proof -
  from OpenKey_None [OF assms(1)] obtain t where
    t: "check_open s r p QUERY_VALUE = Inr t" "k = fresh_handle s"
      "s1 = logged (OPEN r p QUERY_VALUE) None
              (s\<lparr>reg_handles := (fresh_handle s, t, QUERY_VALUE) # reg_handles s\<rparr>)"
    by blast
  note get = typed_get_after_open [OF t(1) QUERY_VALUE_nonzero t(3), of as_string "[]" n]
  from assms(2) show "get_err = None \<longleftrightarrow> (\<exists>d. value_at s r p n = Some d \<and> as_string d = Some val)"
    by (auto simp: Key_GetStringValue_def t(2) get split: option.splits)
  from assms(2) show "get_err = None \<longleftrightarrow> (\<exists>d v. value_at s r p n = Some d \<and> as_string d = Some v)"
    by (auto simp: Key_GetStringValue_def t(2) get split: option.splits)
qed

lemma reg0_OpenKey_Software:
  "registry_OpenKey CURRENT_USER ''Software'' QUERY_VALUE reg0 =
     ((fresh_handle reg0, None),
      logged (OPEN CURRENT_USER ''Software'' QUERY_VALUE) None
        (reg0\<lparr>reg_handles :=
                 (fresh_handle reg0, [''HKEY_CURRENT_USER'', ''Software''], QUERY_VALUE)
                 # reg_handles reg0\<rparr>))"
  by (simp add: registry_OpenKey_def reg0_open_Software_query)

lemma reg0_OpenKey_Locked:
  "registry_OpenKey CURRENT_USER ''Locked'' QUERY_VALUE reg0 =
     ((0, Some ERROR_ACCESS_DENIED),
      logged (OPEN CURRENT_USER ''Locked'' QUERY_VALUE) (Some ERROR_ACCESS_DENIED) reg0)"
  by (simp add: registry_OpenKey_def reg0_open_Locked_query)

lemma reg0_Name: "value_at reg0 CURRENT_USER ''Software'' ''Name'' = Some (REG_SZ ''winreg'')"
  by (simp add: value_at_def reg0_Software)

lemma reg0_Count: "value_at reg0 CURRENT_USER ''Software'' ''Count'' = Some (REG_DWORD 7)"
  by (simp add: value_at_def reg0_Software)

lemma reg0_GetStringValue_Name:
  "Key_GetStringValue (fresh_handle reg0) ''Name''
     (snd (registry_OpenKey CURRENT_USER ''Software'' QUERY_VALUE reg0)) =
   ((''winreg'', 1, None),
    logged (GET (fresh_handle reg0) ''Name'') None
      (snd (registry_OpenKey CURRENT_USER ''Software'' QUERY_VALUE reg0)))"
  by (simp add: Key_GetStringValue_def reg0_OpenKey_Software reg0_Name
      typed_get_after_open [OF reg0_open_Software_query QUERY_VALUE_nonzero refl])

lemma reg0_GetStringValue_Count:
  "Key_GetStringValue (fresh_handle reg0) ''Count''
     (snd (registry_OpenKey CURRENT_USER ''Software'' QUERY_VALUE reg0)) =
   (([], 4, Some ErrUnexpectedType),
    logged (GET (fresh_handle reg0) ''Count'') (Some ErrUnexpectedType)
      (snd (registry_OpenKey CURRENT_USER ''Software'' QUERY_VALUE reg0)))"
  by (simp add: Key_GetStringValue_def reg0_OpenKey_Software reg0_Count
      typed_get_after_open [OF reg0_open_Software_query QUERY_VALUE_nonzero refl])

lemma reg0_OpenKey_Software_pair:
  "registry_OpenKey CURRENT_USER ''Software'' QUERY_VALUE reg0 =
     ((fresh_handle reg0, None), snd (registry_OpenKey CURRENT_USER ''Software'' QUERY_VALUE reg0))"
  by (simp add: reg0_OpenKey_Software)

lemma reg0_OpenKey_Locked_pair:
  "registry_OpenKey CURRENT_USER ''Locked'' QUERY_VALUE reg0 =
     ((0, Some ERROR_ACCESS_DENIED), snd (registry_OpenKey CURRENT_USER ''Locked'' QUERY_VALUE reg0))"
  by (simp add: reg0_OpenKey_Locked)

lemma GetStringValue_pair:
  "Key_GetStringValue k n s =
     ((fst (fst (Key_GetStringValue k n s)), fst (snd (fst (Key_GetStringValue k n s))),
       snd (snd (fst (Key_GetStringValue k n s)))), snd (Key_GetStringValue k n s))"
  by simp

text \<open>
  C3. Let the open call with the query right return the handle \<open>k\<close> and the error
  \<open>open_err\<close>, and let the string read on \<open>k\<close> return the value \<open>val\<close> and the error
  \<open>get_err\<close>. Then \<^verbatim>\<open>ReadStringValueWithDefault\<close> always returns a nil error; it returns
  the default when the open or the read fails; and otherwise it returns \<open>val\<close>, which is
  the string stored under that name.
\<close>

theorem ReadStringValueWithDefault_default:
  assumes "registry_OpenKey root keyPath QUERY_VALUE s = ((k, open_err), s1)"
    and "Key_GetStringValue k valueName s1 = ((val, vt, get_err), s2)"
  shows "snd (fst (ReadStringValueWithDefault root keyPath valueName defaultValue s)) = None \<and>
         (open_err \<noteq> None \<or> get_err \<noteq> None \<longrightarrow>
            fst (fst (ReadStringValueWithDefault root keyPath valueName defaultValue s))
              = defaultValue) \<and>
         (open_err = None \<and> get_err = None \<longrightarrow>
            fst (fst (ReadStringValueWithDefault root keyPath valueName defaultValue s)) = val \<and>
            (\<exists>d. value_at s root keyPath valueName = Some d \<and> as_string d = Some val))"
proof -
  have res: "fst (ReadStringValueWithDefault root keyPath valueName defaultValue s) =
      (if open_err \<noteq> None \<or> get_err \<noteq> None then (defaultValue, None) else (val, None))"
    using assms by (cases open_err; cases get_err) (simp_all add: ReadStringValueWithDefault_def)
  have "\<exists>d. value_at s root keyPath valueName = Some d \<and> as_string d = Some val"
    if "open_err = None" "get_err = None"
    using GetStringValue_after_open(1) [OF assms(1) [unfolded that(1)] assms(2)] that(2) by simp
  with res show ?thesis by auto
qed

theorem ReadStringValueWithDefault_default_witness:
  "snd (fst (registry_OpenKey CURRENT_USER ''Software'' QUERY_VALUE reg0)) = None \<and>
   fst (ReadStringValueWithDefault CURRENT_USER ''Software'' ''Name'' ''none'' reg0)
     = (''winreg'', None) \<and>
   fst (ReadStringValueWithDefault CURRENT_USER ''Software'' ''Count'' ''none'' reg0)
     = (''none'', None) \<and>
   snd (fst (registry_OpenKey CURRENT_USER ''Locked'' QUERY_VALUE reg0))
     = Some ERROR_ACCESS_DENIED \<and>
   fst (ReadStringValueWithDefault CURRENT_USER ''Locked'' ''Name'' ''none'' reg0)
     = (''none'', None)"
proof -
  note name = ReadStringValueWithDefault_default
    [OF reg0_OpenKey_Software_pair reg0_GetStringValue_Name, of "''none''"]
  note count = ReadStringValueWithDefault_default
    [OF reg0_OpenKey_Software_pair reg0_GetStringValue_Count, of "''none''"]
  note locked = ReadStringValueWithDefault_default
    [OF reg0_OpenKey_Locked_pair GetStringValue_pair, of "''Name''" "''none''"]
  have "fst (ReadStringValueWithDefault CURRENT_USER ''Software'' ''Name'' ''none'' reg0)
     = (''winreg'', None)"
    using name by (simp add: prod_eq_iff)
  moreover
  have "fst (ReadStringValueWithDefault CURRENT_USER ''Software'' ''Count'' ''none'' reg0)
     = (''none'', None)"
    using count by (simp add: prod_eq_iff)
  moreover
  have "fst (ReadStringValueWithDefault CURRENT_USER ''Locked'' ''Name'' ''none'' reg0)
     = (''none'', None)"
    using locked by (simp add: prod_eq_iff)
  ultimately show ?thesis
    by (simp add: reg0_OpenKey_Software reg0_OpenKey_Locked)
qed

text \<open>
  C9. With the same names for the results of the open call and of the string read:
  \<^verbatim>\<open>ValueExists\<close> is true exactly when both succeed, which is exactly when the key opens
  with the query right and the stored value is a string or an expandable string. So it is
  false for a stored value of another type, and false when the open fails, whatever the
  error.
\<close>

theorem ValueExists_reads_as_string:
  assumes "registry_OpenKey root keyPath QUERY_VALUE s = ((k, open_err), s1)"
    and "Key_GetStringValue k valueName s1 = ((val, vt, get_err), s2)"
  shows "fst (ValueExists root keyPath valueName s) = (open_err = None \<and> get_err = None) \<and>
         fst (ValueExists root keyPath valueName s) =
           (open_err = None \<and>
            (\<exists>d v. value_at s root keyPath valueName = Some d \<and> as_string d = Some v)) \<and>
         (\<forall>d. value_at s root keyPath valueName = Some d \<and> as_string d = None \<longrightarrow>
            \<not> fst (ValueExists root keyPath valueName s)) \<and>
         (open_err \<noteq> None \<longrightarrow> \<not> fst (ValueExists root keyPath valueName s))"
proof -
  have res: "fst (ValueExists root keyPath valueName s) = (open_err = None \<and> get_err = None)"
    using assms by (cases open_err; cases get_err) (simp_all add: ValueExists_def)
  have sem: "get_err = None \<longleftrightarrow>
      (\<exists>d v. value_at s root keyPath valueName = Some d \<and> as_string d = Some v)"
    if "open_err = None"
    using GetStringValue_after_open(2) [OF assms(1) [unfolded that] assms(2)] .
  from res sem show ?thesis by auto
qed

theorem ValueExists_reads_as_string_witness:
  "value_at reg0 CURRENT_USER ''Software'' ''Name'' = Some (REG_SZ ''winreg'') \<and>
   fst (ValueExists CURRENT_USER ''Software'' ''Name'' reg0) \<and>
   value_at reg0 CURRENT_USER ''Software'' ''Count'' = Some (REG_DWORD 7) \<and>
   as_string (REG_DWORD 7) = None \<and>
   \<not> fst (ValueExists CURRENT_USER ''Software'' ''Count'' reg0) \<and>
   snd (fst (registry_OpenKey CURRENT_USER ''Locked'' QUERY_VALUE reg0))
     = Some ERROR_ACCESS_DENIED \<and>
   \<not> fst (ValueExists CURRENT_USER ''Locked'' ''Name'' reg0)"
proof -
  note name = ValueExists_reads_as_string
    [OF reg0_OpenKey_Software_pair reg0_GetStringValue_Name]
  note count = ValueExists_reads_as_string
    [OF reg0_OpenKey_Software_pair reg0_GetStringValue_Count]
  note locked = ValueExists_reads_as_string
    [OF reg0_OpenKey_Locked_pair GetStringValue_pair, of "''Name''"]
  have "fst (ValueExists CURRENT_USER ''Software'' ''Name'' reg0)"
    using name by simp
  moreover
  have "\<not> fst (ValueExists CURRENT_USER ''Software'' ''Count'' reg0)"
    using count reg0_Count by simp
  moreover
  have "\<not> fst (ValueExists CURRENT_USER ''Locked'' ''Name'' reg0)"
    using locked by simp
  ultimately show ?thesis
    by (simp add: reg0_Name reg0_Count reg0_OpenKey_Locked)
qed

section \<open>Existence of keys\<close>

lemma KeyExists_result:
  "fst (KeyExists r p s) = (case check_open s r p QUERY_VALUE of Inl e \<Rightarrow> False | Inr t \<Rightarrow> True)"
  by (simp add: KeyExists_def registry_OpenKey_def split: sum.splits)

lemma map_of_constant:
  "map_of (map (\<lambda>q. (q, c)) qs) t = (if t \<in> set qs then Some c else None)"
  by (induction qs) auto

lemma QUERY_VALUE_of_ALL_ACCESS:
  assumes "ALL_ACCESS AND g = ALL_ACCESS"
  shows "QUERY_VALUE AND g = QUERY_VALUE"
proof -
  have q: "QUERY_VALUE AND ALL_ACCESS = QUERY_VALUE"
    by (simp add: QUERY_VALUE_def ALL_ACCESS_def)
  have "QUERY_VALUE AND g = (QUERY_VALUE AND ALL_ACCESS) AND g"
    by (simp only: q)
  also have "\<dots> = QUERY_VALUE AND (ALL_ACCESS AND g)"
    by (simp only: and.assoc)
  also have "\<dots> = QUERY_VALUE"
    by (simp only: assms q)
  finally show ?thesis .
qed

lemma check_create_Inr:
  assumes "check_create s r p ALL_ACCESS = Inr (t, existed, missing)"
  shows "\<exists>q g key. handle_target s r = Some (q, g) \<and> t = q @ path_components p \<and>
           map_of (reg_keys s @ map (\<lambda>q. (q, new_key)) missing) t = Some key \<and>
           QUERY_VALUE AND kgranted key = QUERY_VALUE"
proof -
  from assms obtain q g where q: "handle_target s r = Some (q, g)"
    by (auto simp: check_create_def split: option.splits)
  show ?thesis
  proof (cases "map_of (reg_keys s) (q @ path_components p)")
    case (Some key)
    with assms q have "t = q @ path_components p" "ALL_ACCESS AND kgranted key = ALL_ACCESS"
      by (auto simp: check_create_def split: if_splits)
    with q Some QUERY_VALUE_of_ALL_ACCESS show ?thesis
      by (auto simp: map_add_def)
  next
    case None
    with assms q have t: "t = q @ path_components p"
      and m: "missing = filter (\<lambda>x. map_of (reg_keys s) x = None)
                 (map ((@) q) (prefixes (path_components p)))"
      by (auto simp: check_create_def split: list.splits if_splits)
    have "path_components p \<in> set (prefixes (path_components p))" by simp
    then have "t \<in> set missing"
      using None unfolding t m by auto
    then have "map_of (reg_keys s @ map (\<lambda>q. (q, new_key)) missing) t = Some new_key"
      using None by (simp add: t map_add_def map_of_constant)
    moreover have "QUERY_VALUE AND kgranted new_key = QUERY_VALUE"
      by (simp add: new_key_def QUERY_VALUE_def ALL_ACCESS_def)
    ultimately show ?thesis using q t by blast
  qed
qed

lemma KeyExists_after_CreateKey:
  assumes "snd (fst (CreateKey r p s)) = None"
  shows "fst (KeyExists r p (snd (CreateKey r p s)))"
proof (cases "check_create s r p ALL_ACCESS")
  case (Inl e)
  with assms show ?thesis by (simp add: CreateKey_result)
next
  case (Inr x)
  then obtain t existed missing where x: "check_create s r p ALL_ACCESS = Inr (t, existed, missing)"
    by (cases x) auto
  let ?s' = "snd (CreateKey r p s)"
  have k: "reg_keys ?s' = reg_keys s @ map (\<lambda>q. (q, new_key)) missing"
    and h: "reg_handles ?s' = (fresh_handle s, t, ALL_ACCESS) # reg_handles s"
    using x by (simp_all add: CreateKey_result)
  from check_create_Inr [OF x] obtain q g key where
    q: "handle_target s r = Some (q, g)" "t = q @ path_components p"
      "map_of (reg_keys s @ map (\<lambda>q. (q, new_key)) missing) t = Some key"
      "QUERY_VALUE AND kgranted key = QUERY_VALUE" by blast
  from handle_target_path_opened [OF h q(1)] obtain g' where "handle_target ?s' r = Some (q, g')" ..
  then have "check_open ?s' r p QUERY_VALUE = Inr t"
    using q(2,3,4) k by (simp add: check_open_def)
  then show ?thesis by (simp add: KeyExists_result)
qed

lemma check_delete_Inr:
  "check_delete s r p = Inr t \<Longrightarrow> \<exists>q g. handle_target s r = Some (q, g) \<and> t = q @ path_components p"
  by (auto simp: check_delete_def split: option.splits if_splits)

lemma KeyExists_after_DeleteKey:
  assumes "fst (DeleteKey r p s) = None"
  shows "\<not> fst (KeyExists r p (snd (DeleteKey r p s)))"
proof (cases "check_delete s r p")
  case (Inl e)
  with assms show ?thesis by (simp add: DeleteKey_def registry_DeleteKey_def)
next
  case (Inr t)
  let ?s' = "snd (DeleteKey r p s)"
  have k: "reg_keys ?s' = AList.delete t (reg_keys s)"
    using Inr by (simp add: DeleteKey_def registry_DeleteKey_def)
  from check_delete_Inr [OF Inr] obtain q g where
    q: "handle_target s r = Some (q, g)" "t = q @ path_components p" by blast
  from handle_target_path [OF DeleteKey_handles q(1)] obtain g' where
    "handle_target ?s' r = Some (q, g')" ..
  then have "check_open ?s' r p QUERY_VALUE = Inl ERROR_FILE_NOT_FOUND"
    using q(2) k by (simp add: check_open_def delete_conv')
  then show ?thesis by (simp add: KeyExists_result)
qed

text \<open>
  C5. When \<^verbatim>\<open>CreateKey\<close> returns no error, \<^verbatim>\<open>KeyExists\<close> on the same root and path is
  true in the registry it leaves; when \<^verbatim>\<open>DeleteKey\<close> returns no error, \<^verbatim>\<open>KeyExists\<close> on
  the same root and path is false in the registry it leaves.
\<close>

theorem KeyExists_after_create_and_delete:
  "(snd (fst (CreateKey root keyPath s)) = None \<longrightarrow>
      fst (KeyExists root keyPath (snd (CreateKey root keyPath s)))) \<and>
   (fst (DeleteKey root keyPath s) = None \<longrightarrow>
      \<not> fst (KeyExists root keyPath (snd (DeleteKey root keyPath s))))"
  using KeyExists_after_CreateKey KeyExists_after_DeleteKey by blast

lemma components_Software_New: "path_components Software_New = [''Software'', ''New'']"
  by (simp add: path_components_def Software_New_def)

lemma reg0_lookup_App:
  "map_of (reg_keys reg0) [''HKEY_CURRENT_USER'', ''Software'', ''App''] =
     Some \<lparr>kvalues = [], kgranted = ALL_ACCESS\<rparr>"
  by (simp add: reg0_def)

lemma reg0_lookup_New:
  "map_of (reg_keys reg0) [''HKEY_CURRENT_USER'', ''Software'', ''New''] = None"
  by (simp add: reg0_def)

lemma reg0_children_App:
  "child_names reg0 [''HKEY_CURRENT_USER'', ''Software'', ''App''] = []"
  by (simp add: child_names_def reg0_def)

lemma reg0_lookup_Software:
  "map_of (reg_keys reg0) [''HKEY_CURRENT_USER'', ''Software''] \<noteq> None"
  "map_of (reg_keys reg0) [''HKEY_CURRENT_USER''] \<noteq> None"
  "granted_on reg0 [''HKEY_CURRENT_USER'', ''Software''] = ALL_ACCESS"
  by (simp_all add: reg0_def granted_on_def)

lemma reg0_create_New:
  "check_create reg0 CURRENT_USER Software_New ALL_ACCESS =
     Inr ([''HKEY_CURRENT_USER'', ''Software'', ''New''], False,
          [[''HKEY_CURRENT_USER'', ''Software'', ''New'']])"
  using reg0_lookup_Software(1,2)
  by (simp add: check_create_def reg0_CURRENT_USER components_Software_New reg0_lookup_New
      reg0_lookup_Software(3) ALL_ACCESS_def CREATE_SUB_KEY_def)

lemma reg0_delete_App:
  "check_delete reg0 CURRENT_USER Software_App =
     Inr [''HKEY_CURRENT_USER'', ''Software'', ''App'']"
  by (simp add: check_delete_def reg0_CURRENT_USER components_Software_App reg0_lookup_App
      reg0_children_App)
     (simp add: ALL_ACCESS_def DELETE_def)

lemma reg0_open_App:
  "check_open reg0 CURRENT_USER Software_App QUERY_VALUE =
     Inr [''HKEY_CURRENT_USER'', ''Software'', ''App'']"
  by (simp add: check_open_def reg0_CURRENT_USER components_Software_App reg0_lookup_App)
     (simp add: ALL_ACCESS_def QUERY_VALUE_def)

lemma reg0_open_New:
  "check_open reg0 CURRENT_USER Software_New QUERY_VALUE = Inl ERROR_FILE_NOT_FOUND"
  by (simp add: check_open_def reg0_CURRENT_USER components_Software_New reg0_lookup_New)

theorem KeyExists_after_create_and_delete_witness:
  "\<not> fst (KeyExists CURRENT_USER Software_New reg0) \<and>
   snd (fst (CreateKey CURRENT_USER Software_New reg0)) = None \<and>
   fst (KeyExists CURRENT_USER Software_New (snd (CreateKey CURRENT_USER Software_New reg0))) \<and>
   fst (KeyExists CURRENT_USER Software_App reg0) \<and>
   fst (DeleteKey CURRENT_USER Software_App reg0) = None \<and>
   \<not> fst (KeyExists CURRENT_USER Software_App (snd (DeleteKey CURRENT_USER Software_App reg0)))"
proof -
  have c: "snd (fst (CreateKey CURRENT_USER Software_New reg0)) = None"
    by (simp add: CreateKey_result reg0_create_New)
  have d: "fst (DeleteKey CURRENT_USER Software_App reg0) = None"
    by (simp add: DeleteKey_def registry_DeleteKey_def reg0_delete_App)
  from KeyExists_after_create_and_delete [of CURRENT_USER Software_New reg0] c
  have "fst (KeyExists CURRENT_USER Software_New (snd (CreateKey CURRENT_USER Software_New reg0)))"
    by blast
  moreover
  from KeyExists_after_create_and_delete [of CURRENT_USER Software_App reg0] d
  have "\<not> fst (KeyExists CURRENT_USER Software_App (snd (DeleteKey CURRENT_USER Software_App reg0)))"
    by blast
  ultimately show ?thesis
    using c d by (simp add: KeyExists_result reg0_open_App reg0_open_New)
qed

section \<open>Deleting a value\<close>

lemma stored_key_same:
  assumes "reg_keys s' = reg_keys s" and "reg_handles s' = reg_handles s"
  shows "stored_key s' r p = stored_key s r p"
proof -
  have "handle_target s' r = handle_target s r"
    using assms by (simp add: handle_target_def granted_on_def split: option.splits)
  with assms(1) show ?thesis by (simp add: stored_key_def split: option.splits)
qed

lemma EnumerateValues_keys: "reg_keys (snd (EnumerateValues r p s)) = reg_keys s"
  by (auto simp: EnumerateValues_def os_defs split: sum.splits option.splits prod.splits)

lemma check_enum_after_open:
  assumes "check_open s r p a = Inr t" and "a AND right \<noteq> 0"
    and "S = logged c e (s\<lparr>reg_handles := (fresh_handle s, t, a) # reg_handles s\<rparr>)"
  shows "\<exists>key. stored_key s r p = Some key \<and> check_enum S (fresh_handle s) right = Inr (t, key)"
proof -
  from check_open_Inr [OF assms(1)] obtain key where
    key: "map_of (reg_keys s) t = Some key" "stored_key s r p = Some key" by blast
  then show ?thesis
    using assms(2) by (simp add: assms(3) check_enum_def handle_target_opened)
qed

lemma EnumerateValues_names:
  "set (fst (fst (EnumerateValues r p s))) \<subseteq>
     (case stored_key s r p of None \<Rightarrow> {} | Some key \<Rightarrow> fst ` set (kvalues key))"
proof (cases "check_open s r p QUERY_VALUE")
  case (Inl e)
  then show ?thesis by (simp add: EnumerateValues_def registry_OpenKey_def)
next
  case (Inr t)
  from check_enum_after_open [OF Inr QUERY_VALUE_nonzero refl] obtain key where
    key: "stored_key s r p = Some key"
      "check_enum
         (logged (OPEN r p QUERY_VALUE) None
            (s\<lparr>reg_handles := (fresh_handle s, t, QUERY_VALUE) # reg_handles s\<rparr>))
         (fresh_handle s) QUERY_VALUE = Inr (t, key)" by blast
  show ?thesis
    using Inr key
    by (simp add: EnumerateValues_def registry_OpenKey_def Key_ReadValueNames_def first_names_def)
qed

lemma DeleteValue_absent:
  assumes "value_at s r p n = None"
  shows "fst (DeleteValue r p n s) \<noteq> None"
proof (cases "check_open s r p WRITE")
  case (Inl e)
  then show ?thesis by (simp add: DeleteValue_def registry_OpenKey_def)
next
  case (Inr t)
  from check_write_after_open [OF Inr WRITE_SET_VALUE_nonzero refl] obtain key where
    key: "stored_key s r p = Some key"
      "check_write
         (logged (OPEN r p WRITE) None
            (s\<lparr>reg_handles := (fresh_handle s, t, WRITE) # reg_handles s\<rparr>))
         (fresh_handle s) = Inr (t, key)" by blast
  from assms key(1) have "map_of (kvalues key) n = None"
    by (simp add: value_at_def)
  with Inr key(2) show ?thesis
    by (simp add: DeleteValue_def registry_OpenKey_def Key_DeleteValue_def)
qed

lemma DeleteValue_effect:
  assumes "fst (DeleteValue r p n s) = None"
  shows "\<exists>key. stored_key (snd (DeleteValue r p n s)) r p = Some key \<and> n \<notin> fst ` set (kvalues key)"
proof (cases "check_open s r p WRITE")
  case (Inl e)
  with assms show ?thesis by (simp add: DeleteValue_def registry_OpenKey_def)
next
  case (Inr t)
  from check_write_after_open [OF Inr WRITE_SET_VALUE_nonzero refl] obtain key where
    key: "stored_key s r p = Some key"
      "check_write
         (logged (OPEN r p WRITE) None
            (s\<lparr>reg_handles := (fresh_handle s, t, WRITE) # reg_handles s\<rparr>))
         (fresh_handle s) = Inr (t, key)" by blast
  have "map_of (kvalues key) n \<noteq> None"
    using assms Inr key(2)
    by (auto simp: DeleteValue_def registry_OpenKey_def Key_DeleteValue_def split: if_splits)
  then obtain d where "map_of (kvalues key) n = Some d" by blast
  then have "reg_keys (snd (DeleteValue r p n s)) =
          AList.update t (key\<lparr>kvalues := AList.delete n (kvalues key)\<rparr>) (reg_keys s)"
    using Inr key(2)
    by (simp add: DeleteValue_def registry_OpenKey_def Key_DeleteValue_def Key_Close_def)
  from stored_key_after_update [OF Inr DeleteValue_handles this]
  show ?thesis by (simp add: delete_notin_dom)
qed

lemma repeated_EnumerateValues:
  "reg_keys (((\<lambda>u. snd (EnumerateValues r p u)) ^^ k) s) = reg_keys s \<and>
   reg_handles (((\<lambda>u. snd (EnumerateValues r p u)) ^^ k) s) = reg_handles s"
  by (induction k) (simp_all add: EnumerateValues_keys EnumerateValues_handles)

text \<open>
  C6. \<^verbatim>\<open>DeleteValue\<close> returns an error when no value of that name is stored under the
  key. When it returns no error, the name is in no result of \<^verbatim>\<open>EnumerateValues\<close> for that
  key afterwards: not in the first enumeration and not in any later one, as long as
  enumerations are all that happens.
\<close>

theorem DeleteValue_missing_and_enumeration:
  "(value_at s root keyPath valueName = None \<longrightarrow>
      fst (DeleteValue root keyPath valueName s) \<noteq> None) \<and>
   (fst (DeleteValue root keyPath valueName s) = None \<longrightarrow>
      value_at s root keyPath valueName \<noteq> None \<and>
      (\<forall>k. valueName \<notin> set (fst (fst (EnumerateValues root keyPath
               (((\<lambda>u. snd (EnumerateValues root keyPath u)) ^^ k)
                  (snd (DeleteValue root keyPath valueName s))))))))"
proof -
  have "valueName \<notin> set (fst (fst (EnumerateValues root keyPath
               (((\<lambda>u. snd (EnumerateValues root keyPath u)) ^^ k)
                  (snd (DeleteValue root keyPath valueName s))))))"
    if ok: "fst (DeleteValue root keyPath valueName s) = None" for k
  proof -
    let ?s' = "snd (DeleteValue root keyPath valueName s)"
    let ?u = "((\<lambda>u. snd (EnumerateValues root keyPath u)) ^^ k) ?s'"
    from DeleteValue_effect [OF ok] obtain key where
      key: "stored_key ?s' root keyPath = Some key" "valueName \<notin> fst ` set (kvalues key)" by blast
    have "stored_key ?u root keyPath = stored_key ?s' root keyPath"
      using repeated_EnumerateValues [where r = root and p = keyPath and k = k and s = ?s']
      by (intro stored_key_same) simp_all
    with key(1) EnumerateValues_names [of root keyPath ?u]
    have "set (fst (fst (EnumerateValues root keyPath ?u))) \<subseteq> fst ` set (kvalues key)"
      by simp
    with key(2) show ?thesis by blast
  qed
  then have later: "fst (DeleteValue root keyPath valueName s) = None \<longrightarrow>
      (\<forall>k. valueName \<notin> set (fst (fst (EnumerateValues root keyPath
               (((\<lambda>u. snd (EnumerateValues root keyPath u)) ^^ k)
                  (snd (DeleteValue root keyPath valueName s)))))))"
    by (intro impI allI)
  have missing: "value_at s root keyPath valueName = None \<longrightarrow>
      fst (DeleteValue root keyPath valueName s) \<noteq> None"
    using DeleteValue_absent [of s root keyPath valueName] by (intro impI)
  have present: "fst (DeleteValue root keyPath valueName s) = None \<longrightarrow>
      value_at s root keyPath valueName \<noteq> None"
    using missing by (intro impI notI) simp
  show ?thesis
  proof (intro conjI impI)
    assume "value_at s root keyPath valueName = None"
    with missing show "fst (DeleteValue root keyPath valueName s) \<noteq> None" by (rule mp)
  next
    assume "fst (DeleteValue root keyPath valueName s) = None"
    with present show "value_at s root keyPath valueName \<noteq> None" by (rule mp)
  next
    assume "fst (DeleteValue root keyPath valueName s) = None"
    with later show "\<forall>k. valueName \<notin> set (fst (fst (EnumerateValues root keyPath
               (((\<lambda>u. snd (EnumerateValues root keyPath u)) ^^ k)
                  (snd (DeleteValue root keyPath valueName s))))))" by (rule mp)
  qed
qed

lemma reg0_DeleteValue_Count: "fst (DeleteValue CURRENT_USER ''Software'' ''Count'' reg0) = None"
proof -
  from check_write_after_open [OF reg0_open_Software_write WRITE_SET_VALUE_nonzero refl]
    reg0_Software
  have "check_write
         (logged (OPEN CURRENT_USER ''Software'' WRITE) None
            (reg0\<lparr>reg_handles :=
                     (fresh_handle reg0, [''HKEY_CURRENT_USER'', ''Software''], WRITE)
                     # reg_handles reg0\<rparr>))
         (fresh_handle reg0) =
        Inr ([''HKEY_CURRENT_USER'', ''Software''],
             \<lparr>kvalues = [(''Name'', REG_SZ ''winreg''), (''Count'', REG_DWORD 7),
                         (''Home'', REG_EXPAND_SZ ''%USERPROFILE%'')],
              kgranted = ALL_ACCESS\<rparr>)"
    by auto
  then show ?thesis
    by (simp add: DeleteValue_def registry_OpenKey_def reg0_open_Software_write Key_DeleteValue_def)
qed

lemma reg0_EnumerateValues:
  "fst (EnumerateValues CURRENT_USER ''Software'' reg0) = ([''Name'', ''Count'', ''Home''], None)"
proof -
  from check_enum_after_open [OF reg0_open_Software_query QUERY_VALUE_nonzero refl]
    reg0_Software
  have "check_enum
         (logged (OPEN CURRENT_USER ''Software'' QUERY_VALUE) None
            (reg0\<lparr>reg_handles :=
                     (fresh_handle reg0, [''HKEY_CURRENT_USER'', ''Software''], QUERY_VALUE)
                     # reg_handles reg0\<rparr>))
         (fresh_handle reg0) QUERY_VALUE =
        Inr ([''HKEY_CURRENT_USER'', ''Software''],
             \<lparr>kvalues = [(''Name'', REG_SZ ''winreg''), (''Count'', REG_DWORD 7),
                         (''Home'', REG_EXPAND_SZ ''%USERPROFILE%'')],
              kgranted = ALL_ACCESS\<rparr>)"
    by auto
  then show ?thesis
    by (simp add: EnumerateValues_def registry_OpenKey_def reg0_open_Software_query
        Key_ReadValueNames_def first_names_def)
qed

theorem DeleteValue_missing_and_enumeration_witness:
  "value_at reg0 CURRENT_USER ''Software'' ''Missing'' = None \<and>
   fst (DeleteValue CURRENT_USER ''Software'' ''Missing'' reg0) \<noteq> None \<and>
   ''Count'' \<in> set (fst (fst (EnumerateValues CURRENT_USER ''Software'' reg0))) \<and>
   fst (DeleteValue CURRENT_USER ''Software'' ''Count'' reg0) = None \<and>
   ''Count'' \<notin> set (fst (fst (EnumerateValues CURRENT_USER ''Software''
                 (snd (DeleteValue CURRENT_USER ''Software'' ''Count'' reg0))))) \<and>
   ''Count'' \<notin> set (fst (fst (EnumerateValues CURRENT_USER ''Software''
                 (snd (EnumerateValues CURRENT_USER ''Software''
                    (snd (DeleteValue CURRENT_USER ''Software'' ''Count'' reg0)))))))"
proof -
  note missing = DeleteValue_missing_and_enumeration
    [of reg0 CURRENT_USER "''Software''" "''Missing''", THEN conjunct1, THEN mp, OF reg0_no_Missing]
  note later = DeleteValue_missing_and_enumeration
    [of reg0 CURRENT_USER "''Software''" "''Count''", THEN conjunct2, THEN mp,
     OF reg0_DeleteValue_Count, THEN conjunct2]
  have e0: "''Count'' \<notin> set (fst (fst (EnumerateValues CURRENT_USER ''Software''
                 (snd (DeleteValue CURRENT_USER ''Software'' ''Count'' reg0)))))"
    using later [THEN spec, of 0] by (simp only: funpow.simps id_apply simp_thms)
  have e1: "''Count'' \<notin> set (fst (fst (EnumerateValues CURRENT_USER ''Software''
                 (snd (EnumerateValues CURRENT_USER ''Software''
                    (snd (DeleteValue CURRENT_USER ''Software'' ''Count'' reg0)))))))"
    using later [THEN spec, of "Suc 0"] by (simp only: funpow.simps id_apply o_apply simp_thms)
  have c: "''Count'' \<in> set (fst (fst (EnumerateValues CURRENT_USER ''Software'' reg0)))"
    by (simp add: reg0_EnumerateValues)
  from reg0_no_Missing missing c reg0_DeleteValue_Count e0 e1 show ?thesis
    by (intro conjI)
qed

section \<open>Handles, access rights and errors of every function\<close>











subsection \<open>Rights of a single bit\<close>

lemma single_bit_mask:
  fixes a :: uint32
  shows "a AND 2 ^ n = 0 \<or> 2 ^ n AND a = 2 ^ n"
proof (cases "bit a n")
  case True
  then have "2 ^ n AND a = 2 ^ n"
    by (intro bit_word_eqI) (auto simp: bit_and_iff bit_exp_iff)
  then show ?thesis ..
next
  case False
  then have "a AND 2 ^ n = 0"
    by (simp add: and_exp_eq_0_iff_not_bit)
  then show ?thesis ..
qed

lemma QUERY_VALUE_bit:
  "QUERY_VALUE AND a \<noteq> QUERY_VALUE \<Longrightarrow> a AND QUERY_VALUE = 0"
  using single_bit_mask [of a 0] by (auto simp: QUERY_VALUE_def)

lemma ENUMERATE_SUB_KEYS_bit:
  "ENUMERATE_SUB_KEYS AND a \<noteq> ENUMERATE_SUB_KEYS \<Longrightarrow> a AND ENUMERATE_SUB_KEYS = 0"
  using single_bit_mask [of a 3] by (auto simp: ENUMERATE_SUB_KEYS_def)

lemma typed_get_denied:
  assumes "handle_target s h = Some (p, a)" and "QUERY_VALUE AND a \<noteq> QUERY_VALUE"
  shows "snd (snd (fst (typed_get sel z h name s))) = Some ERROR_ACCESS_DENIED"
  using assms(1) QUERY_VALUE_bit [OF assms(2)]
  by (simp add: typed_get_def query_value_def)

lemma ReadValueNames_denied:
  assumes "handle_target s h = Some (p, a)" and "QUERY_VALUE AND a \<noteq> QUERY_VALUE"
  shows "snd (fst (Key_ReadValueNames h n s)) = Some ERROR_ACCESS_DENIED"
  using assms(1) QUERY_VALUE_bit [OF assms(2)]
  by (simp add: Key_ReadValueNames_def check_enum_def)

lemma ReadSubKeyNames_denied:
  assumes "handle_target s h = Some (p, a)" and "ENUMERATE_SUB_KEYS AND a \<noteq> ENUMERATE_SUB_KEYS"
  shows "snd (fst (Key_ReadSubKeyNames h n s)) = Some ERROR_ACCESS_DENIED"
  using assms(1) ENUMERATE_SUB_KEYS_bit [OF assms(2)]
  by (simp add: Key_ReadSubKeyNames_def check_enum_def)

subsection \<open>The registry with a key that grants the set-value right only\<close>

lemma components_Narrow: "path_components ''Narrow'' = [''Narrow'']"
  by (simp add: path_components_def)

lemma components_Sub: "path_components ''Sub'' = [''Sub'']"
  by (simp add: path_components_def)

lemma reg1_CURRENT_USER:
  "handle_target reg1 CURRENT_USER = Some ([''HKEY_CURRENT_USER''], ALL_ACCESS)"
  by (simp add: handle_target_def predefined_root_def CURRENT_USER_def CLASSES_ROOT_def
      reg1_def granted_on_def)

lemma reg1_lookup_Narrow:
  "map_of (reg_keys reg1) [''HKEY_CURRENT_USER'', ''Narrow''] =
     Some \<lparr>kvalues = [(''Count'', REG_DWORD 7)], kgranted = SET_VALUE\<rparr>"
  by (simp add: reg1_def)

lemma reg1_lookup_Sub:
  "map_of (reg_keys reg1) [''HKEY_CURRENT_USER'', ''Narrow'', ''Sub''] =
     Some \<lparr>kvalues = [], kgranted = ALL_ACCESS\<rparr>"
  by (simp add: reg1_def)

lemma reg1_children_Sub:
  "child_names reg1 [''HKEY_CURRENT_USER'', ''Narrow'', ''Sub''] = []"
  by (simp add: child_names_def reg1_def)

lemma reg1_open_Narrow_write:
  "check_open reg1 CURRENT_USER ''Narrow'' WRITE = Inl ERROR_ACCESS_DENIED"
  by (simp add: check_open_def reg1_CURRENT_USER components_Narrow reg1_lookup_Narrow
      WRITE_def SET_VALUE_def)

lemma reg1_open_Narrow_set:
  "check_open reg1 CURRENT_USER ''Narrow'' SET_VALUE = Inr [''HKEY_CURRENT_USER'', ''Narrow'']"
  by (simp add: check_open_def reg1_CURRENT_USER components_Narrow reg1_lookup_Narrow)

lemma fresh_handle_reg1: "fresh_handle reg1 = 2147483654"
  by (simp add: fresh_handle_def reg1_def CURRENT_CONFIG_def)

lemma reg1_opened_eq:
  "reg1_opened =
     logged (OPEN CURRENT_USER ''Narrow'' SET_VALUE) None
       (reg1\<lparr>reg_handles := [(2147483654, [''HKEY_CURRENT_USER'', ''Narrow''], SET_VALUE)]\<rparr>)"
  by (simp add: reg1_opened_def registry_OpenKey_def reg1_open_Narrow_set fresh_handle_reg1)
     (simp add: reg1_def)

lemma reg1_opened_handle:
  "handle_target reg1_opened 2147483654 = Some ([''HKEY_CURRENT_USER'', ''Narrow''], SET_VALUE)"
  by (simp add: reg1_opened_eq handle_target_def predefined_root_def CLASSES_ROOT_def
      CURRENT_USER_def LOCAL_MACHINE_def USERS_def CURRENT_CONFIG_def)

lemma reg1_opened_keys: "reg_keys reg1_opened = reg_keys reg1"
  by (simp add: reg1_opened_eq)

lemma reg1_opened_children:
  "child_names reg1_opened [''HKEY_CURRENT_USER'', ''Narrow'', ''Sub''] = []"
  using reg1_children_Sub by (simp add: child_names_def reg1_opened_keys)

lemma reg1_opened_check_write:
  "check_write reg1_opened 2147483654 =
     Inr ([''HKEY_CURRENT_USER'', ''Narrow''],
          \<lparr>kvalues = [(''Count'', REG_DWORD 7)], kgranted = SET_VALUE\<rparr>)"
  by (simp add: check_write_def reg1_opened_handle reg1_opened_keys reg1_lookup_Narrow
      SET_VALUE_def)

lemma reg1_opened_check_delete:
  "check_delete reg1_opened 2147483654 ''Sub'' = Inr [''HKEY_CURRENT_USER'', ''Narrow'', ''Sub'']"
  by (simp add: check_delete_def reg1_opened_handle reg1_opened_keys reg1_lookup_Sub
      components_Sub reg1_opened_children ALL_ACCESS_def DELETE_def)

text \<open>
  C7 (as amended). The access rights a call asks for, in order, are those the spec assigns
  to its function: the query right for the typed readers, \<^verbatim>\<open>KeyExists\<close>, \<^verbatim>\<open>ValueExists\<close>
  and \<^verbatim>\<open>EnumerateValues\<close>; the write right for the typed writers, \<^verbatim>\<open>DeleteValue\<close> and
  \<^verbatim>\<open>DeleteSubKey\<close>; the right to enumerate subkeys for \<^verbatim>\<open>EnumerateSubKeys\<close>; all-access
  for \<^verbatim>\<open>CreateKey\<close> and for no other function; and none at all for \<^verbatim>\<open>DeleteKey\<close>, which
  opens no key. This holds on every path, whether the calls succeed or fail.
  For the typed readers, \<^verbatim>\<open>ValueExists\<close>, \<^verbatim>\<open>EnumerateValues\<close> and \<^verbatim>\<open>EnumerateSubKeys\<close> the
  right asked for is the narrowest that serves: a handle that does not carry the query
  right is denied every typed get and the enumeration of value names, and a handle that
  does not carry the right to enumerate subkeys is denied the enumeration of subkeys.
\<close>

theorem access_right_of_every_function:
  "requested (events_of c s) = spec_access c \<and>
   (ALL_ACCESS \<in> set (requested (events_of c s)) \<longleftrightarrow> is_create c) \<and>
   (handle_target s h = Some (p, a) \<and> QUERY_VALUE AND a \<noteq> QUERY_VALUE \<longrightarrow>
      snd (snd (fst (Key_GetDWordValue h name s))) = Some ERROR_ACCESS_DENIED \<and>
      snd (snd (fst (Key_GetQWordValue h name s))) = Some ERROR_ACCESS_DENIED \<and>
      snd (snd (fst (Key_GetStringValue h name s))) = Some ERROR_ACCESS_DENIED \<and>
      snd (snd (fst (Key_GetExpandStringValue h name s))) = Some ERROR_ACCESS_DENIED \<and>
      snd (snd (fst (Key_GetStringsValue h name s))) = Some ERROR_ACCESS_DENIED \<and>
      snd (snd (fst (Key_GetBinaryValue h name s))) = Some ERROR_ACCESS_DENIED \<and>
      snd (snd (fst (Key_GetIntValue h name s))) = Some ERROR_ACCESS_DENIED \<and>
      snd (fst (Key_ReadValueNames h n s)) = Some ERROR_ACCESS_DENIED) \<and>
   (handle_target s h = Some (p, a) \<and> ENUMERATE_SUB_KEYS AND a \<noteq> ENUMERATE_SUB_KEYS \<longrightarrow>
      snd (fst (Key_ReadSubKeyNames h n s)) = Some ERROR_ACCESS_DENIED)"
proof -
  have r: "requested (events_of c s) = spec_access c"
    by (cases c)
       (simp_all add: ReadDWordValue_requested WriteDWordValue_requested ReadBinaryValue_requested WriteBinaryValue_requested DeleteValue_requested DeleteSubKey_requested KeyExists_requested ValueExists_requested EnumerateSubKeys_requested EnumerateValues_requested CreateKey_requested ReadStringValueWithDefault_requested ReadMultiStringValue_requested WriteMultiStringValue_requested ReadQWordValue_requested WriteQWordValue_requested ReadExpandStringValue_requested WriteExpandStringValue_requested ReadInt32Value_requested WriteInt32Value_requested ReadInt64Value_requested WriteInt64Value_requested DeleteKey_requested)
  have "ALL_ACCESS \<in> set (spec_access c) \<longleftrightarrow> is_create c"
    by (cases c) (simp_all add: ALL_ACCESS_def QUERY_VALUE_def WRITE_def ENUMERATE_SUB_KEYS_def)
  with r have all: "ALL_ACCESS \<in> set (requested (events_of c s)) \<longleftrightarrow> is_create c"
    by simp
  have q: "snd (snd (fst (Key_GetDWordValue h name s))) = Some ERROR_ACCESS_DENIED \<and>
      snd (snd (fst (Key_GetQWordValue h name s))) = Some ERROR_ACCESS_DENIED \<and>
      snd (snd (fst (Key_GetStringValue h name s))) = Some ERROR_ACCESS_DENIED \<and>
      snd (snd (fst (Key_GetExpandStringValue h name s))) = Some ERROR_ACCESS_DENIED \<and>
      snd (snd (fst (Key_GetStringsValue h name s))) = Some ERROR_ACCESS_DENIED \<and>
      snd (snd (fst (Key_GetBinaryValue h name s))) = Some ERROR_ACCESS_DENIED \<and>
      snd (snd (fst (Key_GetIntValue h name s))) = Some ERROR_ACCESS_DENIED \<and>
      snd (fst (Key_ReadValueNames h n s)) = Some ERROR_ACCESS_DENIED"
    if "handle_target s h = Some (p, a) \<and> QUERY_VALUE AND a \<noteq> QUERY_VALUE"
    using that
    by (simp add: Key_GetDWordValue_def Key_GetQWordValue_def Key_GetStringValue_def
        Key_GetExpandStringValue_def Key_GetStringsValue_def Key_GetBinaryValue_def
        Key_GetIntValue_def typed_get_denied [of s h p a] ReadValueNames_denied [of s h p a])
  have e: "snd (fst (Key_ReadSubKeyNames h n s)) = Some ERROR_ACCESS_DENIED"
    if "handle_target s h = Some (p, a) \<and> ENUMERATE_SUB_KEYS AND a \<noteq> ENUMERATE_SUB_KEYS"
    using that by (simp add: ReadSubKeyNames_denied [of s h p a])
  from r all q e show ?thesis by blast
qed

theorem access_right_of_every_function_witness:
  "requested (events_of (Call_WriteDWordValue CURRENT_USER ''Narrow'' ''Count'' 8) reg1) = [WRITE] \<and>
   handle_target reg1_opened 2147483654 = Some ([''HKEY_CURRENT_USER'', ''Narrow''], SET_VALUE) \<and>
   QUERY_VALUE AND SET_VALUE \<noteq> QUERY_VALUE \<and>
   ENUMERATE_SUB_KEYS AND SET_VALUE \<noteq> ENUMERATE_SUB_KEYS \<and>
   snd (snd (fst (Key_GetDWordValue 2147483654 ''Count'' reg1_opened))) = Some ERROR_ACCESS_DENIED \<and>
   snd (fst (Key_ReadValueNames 2147483654 (- 1) reg1_opened)) = Some ERROR_ACCESS_DENIED \<and>
   snd (fst (Key_ReadSubKeyNames 2147483654 (- 1) reg1_opened)) = Some ERROR_ACCESS_DENIED"
proof -
  have b: "QUERY_VALUE AND SET_VALUE \<noteq> QUERY_VALUE"
    "ENUMERATE_SUB_KEYS AND SET_VALUE \<noteq> ENUMERATE_SUB_KEYS"
    by (simp_all add: QUERY_VALUE_def SET_VALUE_def ENUMERATE_SUB_KEYS_def)
  note t = access_right_of_every_function
    [of "Call_WriteDWordValue CURRENT_USER ''Narrow'' ''Count'' 8" reg1]
  note u = access_right_of_every_function
    [of _ reg1_opened 2147483654 "[''HKEY_CURRENT_USER'', ''Narrow'']" SET_VALUE "''Count''" "- 1"]
  from t have "requested (events_of (Call_WriteDWordValue CURRENT_USER ''Narrow'' ''Count'' 8) reg1)
      = [WRITE]"
    by simp
  moreover from u reg1_opened_handle b
  have "snd (snd (fst (Key_GetDWordValue 2147483654 ''Count'' reg1_opened))) = Some ERROR_ACCESS_DENIED \<and>
   snd (fst (Key_ReadValueNames 2147483654 (- 1) reg1_opened)) = Some ERROR_ACCESS_DENIED \<and>
   snd (fst (Key_ReadSubKeyNames 2147483654 (- 1) reg1_opened)) = Some ERROR_ACCESS_DENIED"
    by blast
  ultimately show ?thesis using reg1_opened_handle b by simp
qed

lemma reg1_open_Narrow_query:
  "check_open reg1 CURRENT_USER ''Narrow'' QUERY_VALUE = Inl ERROR_ACCESS_DENIED"
  by (simp add: check_open_def reg1_CURRENT_USER components_Narrow reg1_lookup_Narrow
      QUERY_VALUE_def SET_VALUE_def)

lemma reg1_create_Narrow_all:
  "check_create reg1 CURRENT_USER ''Narrow'' ALL_ACCESS = Inl ERROR_ACCESS_DENIED"
  by (simp add: check_create_def reg1_CURRENT_USER components_Narrow reg1_lookup_Narrow
      ALL_ACCESS_def SET_VALUE_def)

lemma reg1_create_Narrow_set:
  "check_create reg1 CURRENT_USER ''Narrow'' SET_VALUE =
     Inr ([''HKEY_CURRENT_USER'', ''Narrow''], True, [])"
  by (simp add: check_create_def reg1_CURRENT_USER components_Narrow reg1_lookup_Narrow)

text \<open>
  C7 as stated fails in two ways. \<^verbatim>\<open>DeleteKey\<close> opens no key and asks for no right: on
  the sample registry its only call to the registry package is the deletion itself. And
  the right asked for is not always the narrowest that serves. The write right contains
  the set-value right and more, and all-access contains every right; so on a key that
  grants the set-value right only, \<^verbatim>\<open>WriteDWordValue\<close>, \<^verbatim>\<open>DeleteValue\<close>, \<^verbatim>\<open>DeleteSubKey\<close>
  and \<^verbatim>\<open>CreateKey\<close> are denied and \<^verbatim>\<open>KeyExists\<close> is false, although the key is opened
  with the set-value right, by the open call and by the create call alike, and the handle
  so opened sets the value, deletes it and deletes the subkey.
\<close>

theorem narrowest_right_of_every_function_counterexample:
  "events_of (Call_DeleteKey CURRENT_USER Software_App) reg0
     = [(DELETE_KEY CURRENT_USER Software_App, None)] \<and>
   requested (events_of (Call_DeleteKey CURRENT_USER Software_App) reg0) = [] \<and>
   SET_VALUE AND WRITE = SET_VALUE \<and> SET_VALUE \<noteq> WRITE \<and>
   SET_VALUE AND ALL_ACCESS = SET_VALUE \<and> SET_VALUE \<noteq> ALL_ACCESS \<and>
   fst (WriteDWordValue CURRENT_USER ''Narrow'' ''Count'' 8 reg1) = Some ERROR_ACCESS_DENIED \<and>
   fst (DeleteValue CURRENT_USER ''Narrow'' ''Count'' reg1) = Some ERROR_ACCESS_DENIED \<and>
   fst (DeleteSubKey CURRENT_USER ''Narrow'' ''Sub'' reg1) = Some ERROR_ACCESS_DENIED \<and>
   fst (CreateKey CURRENT_USER ''Narrow'' reg1) = (0, Some ERROR_ACCESS_DENIED) \<and>
   fst (KeyExists CURRENT_USER ''Narrow'' reg1) = False \<and>
   fst (registry_CreateKey CURRENT_USER ''Narrow'' SET_VALUE reg1) = (2147483654, True, None) \<and>
   fst (registry_OpenKey CURRENT_USER ''Narrow'' SET_VALUE reg1) = (2147483654, None) \<and>
   snd (registry_OpenKey CURRENT_USER ''Narrow'' SET_VALUE reg1) = reg1_opened \<and>
   fst (Key_SetDWordValue 2147483654 ''Count'' 8 reg1_opened) = None \<and>
   fst (Key_DeleteValue 2147483654 ''Count'' reg1_opened) = None \<and>
   fst (registry_DeleteKey 2147483654 ''Sub'' reg1_opened) = None"
proof -
  have a: "events_of (Call_DeleteKey CURRENT_USER Software_App) reg0
     = [(DELETE_KEY CURRENT_USER Software_App, None)]"
    "requested (events_of (Call_DeleteKey CURRENT_USER Software_App) reg0) = []"
    by (simp_all add: events_of_def DeleteKey_def registry_DeleteKey_def reg0_delete_App
        logged_def requested_def)
  have b: "SET_VALUE AND WRITE = SET_VALUE" "SET_VALUE \<noteq> WRITE"
    "SET_VALUE AND ALL_ACCESS = SET_VALUE" "SET_VALUE \<noteq> ALL_ACCESS"
    by (simp_all add: SET_VALUE_def WRITE_def ALL_ACCESS_def)
  have c: "fst (WriteDWordValue CURRENT_USER ''Narrow'' ''Count'' 8 reg1) = Some ERROR_ACCESS_DENIED"
    "fst (DeleteValue CURRENT_USER ''Narrow'' ''Count'' reg1) = Some ERROR_ACCESS_DENIED"
    "fst (DeleteSubKey CURRENT_USER ''Narrow'' ''Sub'' reg1) = Some ERROR_ACCESS_DENIED"
    by (simp_all add: WriteDWordValue_def DeleteValue_def DeleteSubKey_def registry_OpenKey_def
        reg1_open_Narrow_write)
  have k: "fst (CreateKey CURRENT_USER ''Narrow'' reg1) = (0, Some ERROR_ACCESS_DENIED)"
    "fst (KeyExists CURRENT_USER ''Narrow'' reg1) = False"
    "fst (registry_CreateKey CURRENT_USER ''Narrow'' SET_VALUE reg1) = (2147483654, True, None)"
    by (simp_all add: CreateKey_result reg1_create_Narrow_all KeyExists_result
        reg1_open_Narrow_query registry_CreateKey_def reg1_create_Narrow_set fresh_handle_reg1)
  have d: "fst (registry_OpenKey CURRENT_USER ''Narrow'' SET_VALUE reg1) = (2147483654, None)"
    by (simp add: registry_OpenKey_def reg1_open_Narrow_set fresh_handle_reg1)
  have e: "fst (Key_SetDWordValue 2147483654 ''Count'' 8 reg1_opened) = None"
    "fst (Key_DeleteValue 2147483654 ''Count'' reg1_opened) = None"
    "fst (registry_DeleteKey 2147483654 ''Sub'' reg1_opened) = None"
    by (simp_all add: Key_SetDWordValue_def set_value_def Key_DeleteValue_def
        registry_DeleteKey_def reg1_opened_check_write reg1_opened_check_delete)
  from a b c k d e show ?thesis by (simp add: reg1_opened_def)
qed



end
